theory Spec2Isabelle
  imports Main "HOL-Library.Multiset" "HOL-Library.Sublist"
begin

section \<open>Text\<close>

text \<open>
  A Python \<^verbatim>\<open>str\<close> is a sequence of Unicode code points, and \<^verbatim>\<open>len\<close>, slicing,
  \<^verbatim>\<open>startswith\<close> and \<^verbatim>\<open>strip\<close> count code points. Address text is Korean, so it is
  modelled as a list of code points. Identifiers the program only compares (place types,
  JSON keys, file-name parts that are ASCII) are HOL strings.
\<close>

type_synonym ustring = "nat list"

text \<open>\<^verbatim>\<open>str.isspace\<close>, which is also the class \<^verbatim>\<open>\s\<close> of \<^verbatim>\<open>re\<close> on \<^verbatim>\<open>str\<close> patterns.\<close>

definition isspace :: "nat \<Rightarrow> bool" where
  "isspace c =
     ((9 \<le> c \<and> c \<le> 13) \<or> (28 \<le> c \<and> c \<le> 32) \<or> c = 133 \<or> c = 160 \<or> c = 5760
      \<or> (8192 \<le> c \<and> c \<le> 8202) \<or> c = 8232 \<or> c = 8233 \<or> c = 8239 \<or> c = 8287
      \<or> c = 12288)"

text \<open>\<^verbatim>\<open>s.strip()\<close>: leading and trailing whitespace removed.\<close>

definition strip :: "ustring \<Rightarrow> ustring" where
  "strip s = rev (dropWhile isspace (rev (dropWhile isspace s)))"

text \<open>\<^verbatim>\<open>s.startswith(p)\<close>.\<close>

definition startswith :: "ustring \<Rightarrow> ustring \<Rightarrow> bool" where
  "startswith s p = (take (length p) s = p)"

text \<open>The code point of an ASCII character, and ASCII text as a \<open>ustring\<close>.\<close>

definition ascii :: "string \<Rightarrow> ustring" where
  "ascii s = map of_char s"

section \<open>Address de-duplication (core/utils.py)\<close>

text \<open>
  A dataframe cell read as text: \<open>None\<close> is a missing value (\<^verbatim>\<open>pd.notna\<close> is false),
  \<open>Some s\<close> a value whose \<^verbatim>\<open>str()\<close> is \<open>s\<close>.
\<close>

definition notna_str_strip :: "ustring option \<Rightarrow> ustring" where
  "notna_str_strip v = (case v of Some s \<Rightarrow> strip s | None \<Rightarrow> [])"

definition remove_address_duplicates ::
  "ustring option \<Rightarrow> ustring option \<Rightarrow> ustring option \<Rightarrow> ustring \<times> ustring \<times> ustring" where
  "remove_address_duplicates ctp_in sig_in emd_in =
     (let ctp_nm = notna_str_strip ctp_in;
          sig0 = notna_str_strip sig_in;
          emd0 = notna_str_strip emd_in;
          sig_nm = (if ctp_nm \<noteq> [] \<and> sig0 \<noteq> [] \<and> startswith sig0 ctp_nm
                    then strip (drop (length ctp_nm) sig0) else sig0);
          emd_nm =
            (if emd0 \<noteq> [] then
               (let emd1 = (if ctp_nm \<noteq> [] \<and> startswith emd0 ctp_nm
                            then strip (drop (length ctp_nm) emd0) else emd0);
                    full_sig_nm = (if ctp_nm \<noteq> [] then strip (ctp_nm @ [32] @ sig_nm)
                                   else sig_nm)
                in if full_sig_nm \<noteq> [] \<and> startswith emd1 full_sig_nm
                   then strip (drop (length full_sig_nm) emd1)
                   else if sig_nm \<noteq> [] \<and> startswith emd1 sig_nm
                   then strip (drop (length sig_nm) emd1)
                   else emd1)
             else emd0)
      in (ctp_nm, sig_nm, emd_nm))"

text \<open>The names of the documented example, as code points.\<close>

definition jeollanamdo :: ustring where
  "jeollanamdo = [51204, 46972, 45224, 46020]"

definition naju_si :: ustring where
  "naju_si = [45208, 51452, 49884]"

definition dong_00 :: ustring where
  "dong_00 = [48, 48, 46041]"

section \<open>Exceptions and HTTP replies\<close>

text \<open>
  The exceptions the modelled code can raise. A function whose result type is
  \<open>pyerr + 'a\<close> returns \<open>Inl e\<close> where the Python raises \<open>e\<close> to its caller.
  \<open>PlainException\<close> is a bare \<^verbatim>\<open>raise Exception(...)\<close>.
\<close>

datatype pyerr =
  RequestException | HTTPError | JSONDecodeError | AttributeError | KeyError
  | ValueError | TypeError | IndexError | ZeroDivisionError | OSError | PlainException

text \<open>
  What \<^verbatim>\<open>response.json()\<close> gives: it raises on a body that is not JSON, and the
  code then calls dictionary methods on the value, which raise on a JSON value that is not
  an object. \<open>'a\<close> is the content of the object the code reads.
\<close>

datatype 'a json_body = NotJson | NotObject | Object 'a

text \<open>
  What \<^verbatim>\<open>requests.get\<close> / \<^verbatim>\<open>requests.post\<close> gives: it raises (no connection,
  timeout), or returns a response with a status code and a body.
\<close>

datatype 'a http = RequestFailed | Response nat "'a json_body"

section \<open>The geocoding client (data\_pipeline/api\_clients/kakao\_api.py)\<close>

text \<open>A JSON object whose values are text: one entry of \<^verbatim>\<open>documents\<close>.\<close>

type_synonym doc = "string \<Rightarrow> ustring option"

text \<open>
  The body of an answer of the provider: the value under \<^verbatim>\<open>'documents'\<close>, \<open>None\<close> when
  the key is absent.
\<close>

type_synonym kakao_reply = "doc list option http"

text \<open>
  The \<^verbatim>\<open>try\<close> block of \<^verbatim>\<open>get_coordinates_from_address\<close>. \<open>float_of\<close> is Python's
  \<^verbatim>\<open>float()\<close> on text, \<open>None\<close> where it raises \<^verbatim>\<open>ValueError\<close>; \<open>Inr None\<close> is
  falling out of the \<^verbatim>\<open>if\<close> without a \<^verbatim>\<open>return\<close>.
\<close>

definition address_search_try ::
  "(ustring \<Rightarrow> 'f option) \<Rightarrow> kakao_reply \<Rightarrow> pyerr + ('f \<times> 'f) option" where
  "address_search_try float_of r =
     (case r of
        RequestFailed \<Rightarrow> Inl RequestException
      | Response status body \<Rightarrow>
          if 400 \<le> status \<and> status < 600 then Inl HTTPError
          else (case body of
                  NotJson \<Rightarrow> Inl JSONDecodeError
                | NotObject \<Rightarrow> Inl AttributeError
                | Object documents \<Rightarrow>
                    (case documents of
                       None \<Rightarrow> Inr None
                     | Some [] \<Rightarrow> Inr None
                     | Some (result # _) \<Rightarrow>
                         (case result ''x'' of
                            None \<Rightarrow> Inl KeyError
                          | Some x \<Rightarrow>
                              (case float_of x of
                                 None \<Rightarrow> Inl ValueError
                               | Some longitude \<Rightarrow>
                                   (case result ''y'' of
                                      None \<Rightarrow> Inl KeyError
                                    | Some y \<Rightarrow>
                                        (case float_of y of
                                           None \<Rightarrow> Inl ValueError
                                         | Some latitude \<Rightarrow>
                                             Inr (Some (longitude, latitude)))))))))"

text \<open>
  \<^verbatim>\<open>KakaoAPIClient.get_coordinates_from_address\<close>: \<open>kakao\<close> is the provider, from the
  query to its answer. \<^verbatim>\<open>except Exception: pass\<close> turns every error of the block into
  the final \<^verbatim>\<open>return None, None\<close>.
\<close>

definition get_coordinates_from_address ::
  "(ustring \<Rightarrow> 'f option) \<Rightarrow> (ustring \<Rightarrow> kakao_reply) \<Rightarrow> ustring
     \<Rightarrow> pyerr + ('f option \<times> 'f option)" where
  "get_coordinates_from_address float_of kakao address =
     (if address = [] \<or> strip address = [] then Inr (None, None)
      else (case address_search_try float_of (kakao address) of
              Inr (Some (longitude, latitude)) \<Rightarrow> Inr (Some longitude, Some latitude)
            | Inr None \<Rightarrow> Inr (None, None)
            | Inl e \<Rightarrow> Inr (None, None)))"

record legal_dong =
  ctp_cd :: "ustring option"
  ctp_nm :: ustring
  sig_cd :: "ustring option"
  sig_nm :: ustring
  emd_cd :: "ustring option"
  emd_nm :: ustring

text \<open>\<^verbatim>\<open>d.get(key, '')\<close>.\<close>

definition get_or_empty :: "doc \<Rightarrow> string \<Rightarrow> ustring" where
  "get_or_empty d k = (case d k of Some v \<Rightarrow> v | None \<Rightarrow> [])"

text \<open>The loop that takes the first document whose \<^verbatim>\<open>region_type\<close> is \<^verbatim>\<open>'B'\<close>.\<close>

fun find_legal_dong :: "doc list \<Rightarrow> doc option" where
  "find_legal_dong [] = None"
| "find_legal_dong (d # ds) =
     (if d ''region_type'' = Some (ascii ''B'') then Some d else find_legal_dong ds)"

text \<open>
  The part of both \<^verbatim>\<open>get_legal_dong_from_coord\<close> functions from the B-type document
  on: the code is cut into the three administrative codes, the names are joined.
\<close>

definition legal_dong_of_doc :: "doc \<Rightarrow> legal_dong" where
  "legal_dong_of_doc d =
     (let code = get_or_empty d ''code'';
          r1 = get_or_empty d ''region_1depth_name'';
          r2 = get_or_empty d ''region_2depth_name'';
          r3 = get_or_empty d ''region_3depth_name''
      in \<lparr> ctp_cd = (if length code \<ge> 2 then Some (take 2 code @ ascii ''00000000'') else None),
           ctp_nm = r1,
           sig_cd = (if length code \<ge> 5 then Some (take 5 code @ ascii ''00000'') else None),
           sig_nm = strip (r1 @ [32] @ r2),
           emd_cd = (if length code = 10 then Some code else None),
           emd_nm = strip (r1 @ [32] @ r2 @ [32] @ r3) \<rparr>)"

text \<open>The \<^verbatim>\<open>try\<close> block of \<^verbatim>\<open>get_legal_dong_from_coord\<close>.\<close>

definition region_lookup_try :: "kakao_reply \<Rightarrow> pyerr + legal_dong option" where
  "region_lookup_try r =
     (case r of
        RequestFailed \<Rightarrow> Inl RequestException
      | Response status body \<Rightarrow>
          if status \<noteq> 200 then Inr None
          else (case body of
                  NotJson \<Rightarrow> Inl JSONDecodeError
                | NotObject \<Rightarrow> Inl AttributeError
                | Object documents \<Rightarrow>
                    (case documents of
                       None \<Rightarrow> Inr None
                     | Some [] \<Rightarrow> Inr None
                     | Some ds \<Rightarrow>
                         (case find_legal_dong ds of
                            None \<Rightarrow> Inr None
                          | Some d \<Rightarrow> Inr (Some (legal_dong_of_doc d))))))"

text \<open>
  \<^verbatim>\<open>KakaoAPIClient.get_legal_dong_from_coord\<close>: \<open>kakao\<close> is the provider, from the
  coordinates to its answer; \<^verbatim>\<open>except Exception: return None\<close>.
\<close>

definition get_legal_dong_from_coord ::
  "('f \<Rightarrow> 'f \<Rightarrow> kakao_reply) \<Rightarrow> 'f \<Rightarrow> 'f \<Rightarrow> pyerr + legal_dong option" where
  "get_legal_dong_from_coord kakao lon lat =
     (case region_lookup_try (kakao lon lat) of
        Inr res \<Rightarrow> Inr res
      | Inl e \<Rightarrow> Inr None)"

text \<open>
  The function of the same name in processors/enrich\_with\_kakao\_api.py: the same text,
  the request made without a timeout.
\<close>

definition enrich_get_legal_dong_from_coord ::
  "('f \<Rightarrow> 'f \<Rightarrow> kakao_reply) \<Rightarrow> 'f \<Rightarrow> 'f \<Rightarrow> pyerr + legal_dong option" where
  "enrich_get_legal_dong_from_coord kakao lon lat =
     (case region_lookup_try (kakao lon lat) of
        Inr res \<Rightarrow> Inr res
      | Inl e \<Rightarrow> Inr None)"

text \<open>Sample answers of the provider, for the closed instances below.\<close>

definition doc_admin :: doc where
  "doc_admin = [''region_type'' \<mapsto> ascii ''H'', ''code'' \<mapsto> ascii ''4617051000'']"

definition doc_legal :: doc where
  "doc_legal = [''region_type'' \<mapsto> ascii ''B'', ''code'' \<mapsto> ascii ''4617010100'']"

definition doc_short_code :: doc where
  "doc_short_code = [''region_type'' \<mapsto> ascii ''B'', ''code'' \<mapsto> ascii ''461'']"

definition doc_xy :: doc where
  "doc_xy = [''x'' \<mapsto> ascii ''126.71'', ''y'' \<mapsto> ascii ''35.01'']"

text \<open>A stand-in for \<^verbatim>\<open>float()\<close> that knows two numerals (in hundredths).\<close>

definition float_of_sample :: "ustring \<Rightarrow> int option" where
  "float_of_sample s =
     (if s = ascii ''126.71'' then Some 12671
      else if s = ascii ''35.01'' then Some 3501 else None)"

section \<open>Address cleaning (core/utils.py)\<close>

text \<open>
  The class \<^verbatim>\<open>\d\<close> of \<^verbatim>\<open>re\<close> on \<^verbatim>\<open>str\<close> patterns: the decimal digits of Unicode
  (category Nd), here the ranges of Unicode 14.0.0.
\<close>

definition decimal_ranges :: "(nat \<times> nat) list" where
  "decimal_ranges =
     [(0x30, 0x39), (0x660, 0x669), (0x6F0, 0x6F9), (0x7C0, 0x7C9), (0x966, 0x96F),
      (0x9E6, 0x9EF), (0xA66, 0xA6F), (0xAE6, 0xAEF), (0xB66, 0xB6F), (0xBE6, 0xBEF),
      (0xC66, 0xC6F), (0xCE6, 0xCEF), (0xD66, 0xD6F), (0xDE6, 0xDEF), (0xE50, 0xE59),
      (0xED0, 0xED9), (0xF20, 0xF29), (0x1040, 0x1049), (0x1090, 0x1099), (0x17E0, 0x17E9),
      (0x1810, 0x1819), (0x1946, 0x194F), (0x19D0, 0x19D9), (0x1A80, 0x1A89),
      (0x1A90, 0x1A99), (0x1B50, 0x1B59), (0x1BB0, 0x1BB9), (0x1C40, 0x1C49),
      (0x1C50, 0x1C59), (0xA620, 0xA629), (0xA8D0, 0xA8D9), (0xA900, 0xA909),
      (0xA9D0, 0xA9D9), (0xA9F0, 0xA9F9), (0xAA50, 0xAA59), (0xABF0, 0xABF9),
      (0xFF10, 0xFF19), (0x104A0, 0x104A9), (0x10D30, 0x10D39), (0x11066, 0x1106F),
      (0x110F0, 0x110F9), (0x11136, 0x1113F), (0x111D0, 0x111D9), (0x112F0, 0x112F9),
      (0x11450, 0x11459), (0x114D0, 0x114D9), (0x11650, 0x11659), (0x116C0, 0x116C9),
      (0x11730, 0x11739), (0x118E0, 0x118E9), (0x11950, 0x11959), (0x11C50, 0x11C59),
      (0x11D50, 0x11D59), (0x11DA0, 0x11DA9), (0x16A60, 0x16A69), (0x16AC0, 0x16AC9),
      (0x16B50, 0x16B59), (0x1D7CE, 0x1D7FF), (0x1E140, 0x1E149), (0x1E2F0, 0x1E2F9),
      (0x1E950, 0x1E959), (0x1FBF0, 0x1FBF9)]"

definition isdecimal :: "nat \<Rightarrow> bool" where
  "isdecimal c = list_ex (\<lambda>(lo, hi). lo \<le> c \<and> c \<le> hi) decimal_ranges"

text \<open>
  A pattern is modelled by what the backtracking matcher of \<^verbatim>\<open>re\<close> finds when it tries
  the pattern at the start of a text: the length of the match, or \<open>None\<close>. None of the five
  patterns of \<^verbatim>\<open>clean_address_for_search\<close> matches the empty string.
\<close>

type_synonym matcher = "ustring \<Rightarrow> nat option"

text \<open>
  \<^verbatim>\<open>re.sub(pattern, repl, s)\<close>: the text is scanned from the left; where the pattern
  matches, the match is replaced and the scan goes on behind it; where it does not, the
  character is kept.
\<close>

fun re_sub :: "matcher \<Rightarrow> ustring \<Rightarrow> ustring \<Rightarrow> ustring" where
  "re_sub m repl [] = []"
| "re_sub m repl (c # cs) =
     (case m (c # cs) of
        Some (Suc n) \<Rightarrow> repl @ re_sub m repl (drop n cs)
      | _ \<Rightarrow> c # re_sub m repl cs)"

text \<open>The code points of the pattern's literals: ( ) and the Hangul of basement, floor, unit.\<close>

definition LPAREN :: nat where "LPAREN = 40"
definition RPAREN :: nat where "RPAREN = 41"
definition JI :: nat where "JI = 51648"
definition HA :: nat where "HA = 54616"
definition CHEUNG :: nat where "CHEUNG = 52789"
definition HO :: nat where "HO = 54840"

text \<open>How many characters a greedy class repetition takes.\<close>

definition span :: "(nat \<Rightarrow> bool) \<Rightarrow> ustring \<Rightarrow> nat" where
  "span p s = length (takeWhile p s)"

text \<open>An optional literal at the start of the text: 1 when it is there.\<close>

definition optional :: "nat \<Rightarrow> ustring \<Rightarrow> nat" where
  "optional c s = (case s of [] \<Rightarrow> 0 | x # _ \<Rightarrow> if x = c then 1 else 0)"

text \<open>
  \<^verbatim>\<open>\([^)]*\)\<close>: an opening bracket, everything up to the next closing bracket, and that
  bracket. Without a closing bracket behind it there is no match (giving characters back
  cannot produce one).
\<close>

definition match_parens :: matcher where
  "match_parens s =
     (case s of
        [] \<Rightarrow> None
      | c # cs \<Rightarrow>
          if c = LPAREN \<and> span (\<lambda>x. x \<noteq> RPAREN) cs < length cs
          then Some (span (\<lambda>x. x \<noteq> RPAREN) cs + 2) else None)"

text \<open>
  \<^verbatim>\<open>jiha\s*\d+\s*cheung?\<close> (the two Hangul of "basement", digits, an optional "floor").
  The digits must follow the whitespace at once: no whitespace character is a digit, so giving
  whitespace back cannot help.
\<close>

definition match_basement :: matcher where
  "match_basement s =
     (case s of
        a # b # r \<Rightarrow>
          if a = JI \<and> b = HA then
            (let w1 = span isspace r; r1 = drop w1 r;
                 d = span isdecimal r1; r2 = drop d r1;
                 w2 = span isspace r2; r3 = drop w2 r2
             in if d = 0 then None else Some (2 + w1 + d + w2 + optional CHEUNG r3))
          else None
      | _ \<Rightarrow> None)"

text \<open>\<^verbatim>\<open>\d+\s*cheung\s*\d*\s*ho?\<close>: a floor, with an optional unit number.\<close>

definition match_floor :: matcher where
  "match_floor s =
     (let d = span isdecimal s; r1 = drop d s;
          w1 = span isspace r1; r2 = drop w1 r1
      in if d = 0 then None
         else (case r2 of
                 [] \<Rightarrow> None
               | c # r3 \<Rightarrow>
                   if c = CHEUNG then
                     (let w2 = span isspace r3; r4 = drop w2 r3;
                          d2 = span isdecimal r4; r5 = drop d2 r4;
                          w3 = span isspace r5; r6 = drop w3 r5
                      in Some (d + w1 + 1 + w2 + d2 + w3 + optional HO r6))
                   else None))"

text \<open>\<^verbatim>\<open>\d+\s*ho\<close>: a unit number.\<close>

definition match_unit :: matcher where
  "match_unit s =
     (let d = span isdecimal s; r1 = drop d s;
          w1 = span isspace r1; r2 = drop w1 r1
      in if d = 0 then None
         else (case r2 of
                 [] \<Rightarrow> None
               | c # _ \<Rightarrow> if c = HO then Some (d + w1 + 1) else None))"

text \<open>\<^verbatim>\<open>\s+\<close>: a run of whitespace.\<close>

definition match_spaces :: matcher where
  "match_spaces s = (if span isspace s = 0 then None else Some (span isspace s))"

definition clean_address_for_search :: "ustring \<Rightarrow> ustring" where
  "clean_address_for_search address =
     (if address = [] \<or> strip address = [] then address
      else (let cleaned = strip address;
                cleaned = re_sub match_parens [] cleaned;
                cleaned = re_sub match_basement [] cleaned;
                cleaned = re_sub match_floor [] cleaned;
                cleaned = re_sub match_unit [] cleaned;
                cleaned = re_sub match_spaces [32] cleaned
            in strip cleaned))"

text \<open>The text "1 2" followed by the unit sign twice.\<close>

definition unit_twice :: ustring where
  "unit_twice = [49, 32, 50, 54840, 54840]"

text \<open>Whether a pattern matches somewhere in a text (\<^verbatim>\<open>re.search\<close> finds something).\<close>

definition has_match :: "matcher \<Rightarrow> ustring \<Rightarrow> bool" where
  "has_match m s = list_ex (\<lambda>k. m (drop k s) \<noteq> None) [0..<length s]"

text \<open>
  The example of the docstring: an address in Seoul with a street number, a floor and a
  unit, and the address without floor and unit.
\<close>

definition teheran_ro_152_full :: ustring where
  "teheran_ro_152_full =
     [49436, 50872, 53945, 48324, 49884, 32, 44053, 45224, 44396, 32, 53580, 54756, 46976,
      47196, 32, 49, 53, 50, 32, 49, 53, 52789, 32, 49, 53, 48, 49, 54840]"

definition teheran_ro_152 :: ustring where
  "teheran_ro_152 =
     [49436, 50872, 53945, 48324, 49884, 32, 44053, 45224, 44396, 32, 53580, 54756, 46976,
      47196, 32, 49, 53, 50]"

text \<open>
  In a text that \<^verbatim>\<open>re.sub(r'\s+', ' ', s)\<close> has produced, every whitespace character is a
  single blank between two other characters or at an end.
\<close>

fun single_spaced :: "ustring \<Rightarrow> bool" where
  "single_spaced [] = True"
| "single_spaced [c] = (isspace c \<longrightarrow> c = 32)"
| "single_spaced (c # d # r) =
     ((isspace c \<longrightarrow> c = 32 \<and> \<not> isspace d) \<and> single_spaced (d # r))"

section \<open>The location matcher (matching/matcher.py)\<close>

text \<open>
  The tunables the matcher reads from the configuration: \<^verbatim>\<open>search_batch_size\<close>,
  \<^verbatim>\<open>CHUNK_SIZE\<close>, \<^verbatim>\<open>MAX_RETRIES\<close> and \<^verbatim>\<open>INTERMEDIATE_SAVE_INTERVAL\<close>.
\<close>

record settings =
  batch_size :: nat
  chunk_size :: nat
  max_retries :: nat
  save_interval :: nat

definition MatchingConfig :: settings where
  "MatchingConfig =
     \<lparr> batch_size = 1000, chunk_size = 50000, max_retries = 3, save_interval = 100000 \<rparr>"

text \<open>\<^verbatim>\<open>get_distance\<close>: the search radius of a place type, \<^verbatim>\<open>'300m'\<close> by default.\<close>

definition get_distance :: "string \<Rightarrow> string" where
  "get_distance place_type =
     (if place_type = ''high_school'' then ''200m''
      else if place_type = ''university'' then ''300m''
      else if place_type = ''company'' then ''200m''
      else ''300m'')"

text \<open>
  One row of the device-location CSV. A coordinate cell is \<open>None\<close> when it is missing
  (\<^verbatim>\<open>dropna\<close> drops the row); \<open>u_time_type\<close> is the cell of the \<^verbatim>\<open>time_type\<close> column,
  which is read only when the file has that column. \<open>'f\<close> is the type of floats.
\<close>

record 'f user_row =
  u_lat :: "'f option"
  u_lon :: "'f option"
  u_adid :: string
  u_time_type :: "string option"

text \<open>The CSV as \<^verbatim>\<open>pd.read_csv\<close> sees it: the names of its columns and its rows.\<close>

record 'f user_csv =
  columns :: "string list"
  csv_rows :: "'f user_row list"

text \<open>A user location \<^verbatim>\<open>(lat, lon, adid)\<close>.\<close>

type_synonym 'f location = "'f \<times> 'f \<times> string"

text \<open>
  One query of a multi-search body: the place type of the \<^verbatim>\<open>term\<close> filter, the radius
  and the centre of the \<^verbatim>\<open>geo_distance\<close> filter (the sort is by distance from the same
  centre, ascending, and the size is 1). The device id is not sent.
\<close>

record 'f geo_query =
  q_place_type :: string
  q_distance :: string
  q_lat :: 'f
  q_lon :: 'f

text \<open>
  One hit: the stored document (\<^verbatim>\<open>_source\<close>, read with \<^verbatim>\<open>.get\<close>) and the sort
  values, of which the first is the distance in metres.
\<close>

record 'f hit =
  source :: "string \<Rightarrow> string option"
  sort_values :: "'f list"

text \<open>
  One entry of \<^verbatim>\<open>responses\<close>: it carries an \<^verbatim>\<open>'error'\<close> key, or
  \<^verbatim>\<open>hits.total.value\<close> and the list \<^verbatim>\<open>hits.hits\<close>.
\<close>

datatype 'f sub_response = SubError | SubHits nat "'f hit list"

text \<open>
  The answer to one POST of a multi-search body: the object's \<^verbatim>\<open>'responses'\<close>, \<open>None\<close>
  when the key is absent. \<open>NotObject\<close> stands for a JSON value without members
  (\<^verbatim>\<open>null\<close>, an array, a string), for which the membership test is false.
\<close>

type_synonym 'f es_reply = "'f sub_response list option http"

text \<open>
  The search backend: the reply to the \<open>attempt\<close>-th POST of a body. A reply may depend
  on the whole body and on the attempt.
\<close>

type_synonym 'f backend = "'f geo_query list \<Rightarrow> nat \<Rightarrow> 'f es_reply"

text \<open>
  \<^verbatim>\<open>sync_msearch\<close>: the loop over \<^verbatim>\<open>range(self.max_retries)\<close>. A status other than
  200, a raised request and a body that is not JSON all go to the next attempt, the last
  attempt returns \<open>None\<close>.
\<close>

function sync_msearch_loop ::
  "nat \<Rightarrow> (nat \<Rightarrow> 'f es_reply) \<Rightarrow> nat \<Rightarrow> 'f sub_response list option json_body option" where
  "sync_msearch_loop retries post attempt =
     (if attempt < retries then
        (case post attempt of
           RequestFailed \<Rightarrow>
             if attempt < retries - 1 then sync_msearch_loop retries post (Suc attempt)
             else None
         | Response status body \<Rightarrow>
             if status = 200 then
               (case body of
                  NotJson \<Rightarrow>
                    if attempt < retries - 1 then sync_msearch_loop retries post (Suc attempt)
                    else None
                | _ \<Rightarrow> Some body)
             else if attempt < retries - 1 then sync_msearch_loop retries post (Suc attempt)
             else None)
      else None)"
  by pat_completeness auto
termination
  by (relation "measure (\<lambda>(retries, post, attempt). retries - attempt)") auto

declare sync_msearch_loop.simps [simp del]

definition sync_msearch ::
  "settings \<Rightarrow> 'f backend \<Rightarrow> 'f geo_query list
     \<Rightarrow> 'f sub_response list option json_body option" where
  "sync_msearch self es search_body = sync_msearch_loop (max_retries self) (es search_body) 0"

text \<open>
  A result row: the device id, its coordinate, the distance, and the codes of the matched
  place as pairs of column name and value (\<open>None\<close> where \<^verbatim>\<open>source.get\<close> finds nothing).
\<close>

record 'f match_row =
  row_adid :: string
  row_lat :: 'f
  row_lon :: 'f
  row_distance :: 'f
  row_codes :: "(string \<times> string option) list"

definition code_columns :: "string \<Rightarrow> string list" where
  "code_columns place_type =
     (if place_type = ''high_school'' \<or> place_type = ''university''
      then [''fac_cd'', ''ctp_cd'', ''sig_cd'', ''emd_cd'']
      else [''corp_cd'', ''corp_depth1_cd'', ''corp_depth2_cd'', ''corp_depth3_cd'',
            ''corp_depth4_cd'', ''corp_depth5_cd'', ''ctp_cd'', ''sig_cd'', ''emd_cd''])"

definition make_result :: "string \<Rightarrow> 'f location \<Rightarrow> 'f hit \<Rightarrow> 'f \<Rightarrow> 'f match_row" where
  "make_result place_type loc h d =
     (case loc of (user_lat, user_lon, adid) \<Rightarrow>
        \<lparr> row_adid = adid, row_lat = user_lat, row_lon = user_lon, row_distance = d,
          row_codes = map (\<lambda>k. (k, source h k)) (code_columns place_type) \<rparr>)"

text \<open>
  The loop of \<^verbatim>\<open>process_batch\<close> over \<^verbatim>\<open>enumerate(response['responses'])\<close>, from
  index \<open>idx\<close> on. \<^verbatim>\<open>batch[idx]\<close>, \<^verbatim>\<open>hits[0]\<close> and \<^verbatim>\<open>sort[0]\<close> raise
  \<^verbatim>\<open>IndexError\<close> out of range.
\<close>

fun collect_results ::
  "string \<Rightarrow> 'f location list \<Rightarrow> nat \<Rightarrow> 'f sub_response list \<Rightarrow> pyerr + 'f match_row list" where
  "collect_results place_type batch idx [] = Inr []"
| "collect_results place_type batch idx (resp # rest) =
     (case resp of
        SubError \<Rightarrow> collect_results place_type batch (Suc idx) rest
      | SubHits total_value hits \<Rightarrow>
          if total_value = 0 then collect_results place_type batch (Suc idx) rest
          else if length batch \<le> idx then Inl IndexError
          else (case hits of
                  [] \<Rightarrow> Inl IndexError
                | h # _ \<Rightarrow>
                    (case sort_values h of
                       [] \<Rightarrow> Inl IndexError
                     | d # _ \<Rightarrow>
                         (case collect_results place_type batch (Suc idx) rest of
                            Inl e \<Rightarrow> Inl e
                          | Inr results \<Rightarrow>
                              Inr (make_result place_type (batch ! idx) h d # results)))))"

definition make_query :: "string \<Rightarrow> 'f location \<Rightarrow> 'f geo_query" where
  "make_query place_type loc =
     (case loc of (user_lat, user_lon, adid) \<Rightarrow>
        \<lparr> q_place_type = place_type, q_distance = get_distance place_type,
          q_lat = user_lat, q_lon = user_lon \<rparr>)"

text \<open>\<^verbatim>\<open>process_batch\<close> on the batch \<^verbatim>\<open>(batch_idx, batch, place_type)\<close>.\<close>

definition process_batch ::
  "settings \<Rightarrow> 'f backend \<Rightarrow> nat \<times> 'f location list \<times> string \<Rightarrow> pyerr + 'f match_row list" where
  "process_batch self es batch_data =
     (case batch_data of (batch_idx, batch, place_type) \<Rightarrow>
        (case sync_msearch self es (map (make_query place_type) batch) of
           None \<Rightarrow> Inr []
         | Some NotJson \<Rightarrow> Inr []
         | Some NotObject \<Rightarrow> Inr []
         | Some (Object None) \<Rightarrow> Inr []
         | Some (Object (Some responses)) \<Rightarrow> collect_results place_type batch 0 responses))"

text \<open>The batches \<^verbatim>\<open>(i, user_locations[i:i+batch_size], place_type)\<close> from offset \<open>i\<close> on.\<close>

function make_batches ::
  "nat \<Rightarrow> string \<Rightarrow> nat \<Rightarrow> 'f location list \<Rightarrow> (nat \<times> 'f location list \<times> string) list" where
  "make_batches n place_type i locs =
     (if n = 0 \<or> locs = [] then []
      else (i, take n locs, place_type) # make_batches n place_type (i + n) (drop n locs))"
  by pat_completeness auto
termination
  by (relation "measure (\<lambda>(n, place_type, i, locs). length locs)") auto

declare make_batches.simps [simp del]

text \<open>
  Collecting the futures: the results of the batches are appended in the order in which
  the batches complete; an exception of a batch is raised by \<^verbatim>\<open>future.result()\<close>.
\<close>

fun gather :: "(pyerr + 'r list) list \<Rightarrow> pyerr + 'r list" where
  "gather [] = Inr []"
| "gather (Inl e # rest) = Inl e"
| "gather (Inr rs # rest) = (case gather rest of Inl e \<Rightarrow> Inl e | Inr later \<Rightarrow> Inr (rs @ later))"

text \<open>
  \<^verbatim>\<open>batch_find_nearest_places_parallel\<close>. \<open>as_completed\<close> is the order in which the
  pool completes the submitted batches: some rearrangement of them. A batch size of 0 makes
  \<^verbatim>\<open>range\<close> raise.
\<close>

definition batch_find_nearest_places_parallel ::
  "settings \<Rightarrow> 'f backend
     \<Rightarrow> ((nat \<times> 'f location list \<times> string) list \<Rightarrow> (nat \<times> 'f location list \<times> string) list)
     \<Rightarrow> string \<Rightarrow> 'f location list \<Rightarrow> pyerr + 'f match_row list" where
  "batch_find_nearest_places_parallel self es as_completed place_type user_locations =
     (if batch_size self = 0 then Inl ValueError
      else gather (map (process_batch self es)
                    (as_completed (make_batches (batch_size self) place_type 0 user_locations))))"

text \<open>
  The preprocessing of one chunk in \<^verbatim>\<open>match_locations\<close>: the daytime filter, for the
  place type \<^verbatim>\<open>'company'\<close> and only when the chunk has a \<^verbatim>\<open>time_type\<close> column, then
  \<^verbatim>\<open>dropna(subset=['lat', 'lon'])\<close>.
\<close>

definition has_coordinates :: "'f user_row \<Rightarrow> bool" where
  "has_coordinates r = (u_lat r \<noteq> None \<and> u_lon r \<noteq> None)"

definition is_daytime :: "'f user_row \<Rightarrow> bool" where
  "is_daytime r = (u_time_type r = Some ''DAY'')"

definition preprocess_chunk :: "string \<Rightarrow> string list \<Rightarrow> 'f user_row list \<Rightarrow> 'f user_row list" where
  "preprocess_chunk place_type cols user_chunk =
     (let user_chunk = (if place_type = ''company'' \<and> ''time_type'' \<in> set cols
                        then filter is_daytime user_chunk else user_chunk)
      in filter has_coordinates user_chunk)"

text \<open>The list \<^verbatim>\<open>[(row['lat'], row['lon'], row['adid']) for ...]\<close> of a preprocessed chunk.\<close>

definition location_of :: "'f user_row \<Rightarrow> 'f location" where
  "location_of r = (the (u_lat r), the (u_lon r), u_adid r)"

definition chunk_locations :: "string \<Rightarrow> string list \<Rightarrow> 'f user_row list \<Rightarrow> 'f location list" where
  "chunk_locations place_type cols user_chunk =
     map location_of (preprocess_chunk place_type cols user_chunk)"

text \<open>
  The output file: the segments written to it, each with the flag \<^verbatim>\<open>header\<close> and its
  rows. \<^verbatim>\<open>_save_results\<close> writes nothing for an empty list; mode \<^verbatim>\<open>'w'\<close> replaces the
  file, mode \<^verbatim>\<open>'a'\<close> appends to it.
\<close>

type_synonym 'f out_file = "(bool \<times> 'f match_row list) list"

definition save_results ::
  "'f match_row list \<Rightarrow> string \<Rightarrow> bool \<Rightarrow> 'f out_file \<Rightarrow> 'f out_file" where
  "save_results results mode header file =
     (if results = [] then file
      else if mode = ''a'' then file @ [(header, results)] else [(header, results)])"

text \<open>The local variables of \<^verbatim>\<open>match_locations\<close> and the output file.\<close>

record 'f match_state =
  all_results :: "'f match_row list"
  processed_count :: nat
  matched_count :: nat
  first_write :: bool
  output_file :: "'f out_file"

text \<open>
  The \<^verbatim>\<open>for\<close> loop over the chunks. An exception of the search leaves the loop with the
  state reached so far (the file keeps what was written).
\<close>

fun chunk_loop ::
  "settings \<Rightarrow> 'f backend
     \<Rightarrow> ((nat \<times> 'f location list \<times> string) list \<Rightarrow> (nat \<times> 'f location list \<times> string) list)
     \<Rightarrow> string \<Rightarrow> string list \<Rightarrow> 'f match_state \<Rightarrow> 'f user_row list list
     \<Rightarrow> pyerr option \<times> 'f match_state" where
  "chunk_loop self es as_completed place_type cols st [] = (None, st)"
| "chunk_loop self es as_completed place_type cols st (user_chunk # chunks) =
     (let user_locations = chunk_locations place_type cols user_chunk
      in if user_locations = [] then chunk_loop self es as_completed place_type cols st chunks
         else (case batch_find_nearest_places_parallel self es as_completed place_type
                      user_locations of
                 Inl e \<Rightarrow> (Some e, st)
               | Inr chunk_results \<Rightarrow>
                   (let st = st\<lparr> all_results := all_results st @ chunk_results,
                                 processed_count := processed_count st + length user_locations,
                                 matched_count := matched_count st + length chunk_results \<rparr>;
                        st = (if length (all_results st) \<ge> save_interval self
                              then st\<lparr> output_file :=
                                         (if first_write st
                                          then save_results (all_results st) ''w'' True (output_file st)
                                          else save_results (all_results st) ''a'' False
                                                 (output_file st)),
                                       first_write := False,
                                       all_results := [] \<rparr>
                              else st)
                    in chunk_loop self es as_completed place_type cols st chunks)))"

text \<open>\<^verbatim>\<open>pd.read_csv(input_csv, chunksize=n)\<close>: the rows in chunks of \<open>n\<close>.\<close>

function read_csv_chunks :: "nat \<Rightarrow> 'a list \<Rightarrow> 'a list list" where
  "read_csv_chunks n rows =
     (if n = 0 \<or> rows = [] then [] else take n rows # read_csv_chunks n (drop n rows))"
  by pat_completeness auto
termination
  by (relation "measure (\<lambda>(n, rows). length rows)") auto

declare read_csv_chunks.simps [simp del]

text \<open>
  \<^verbatim>\<open>match_locations\<close>: \<open>input_csv\<close> is \<open>None\<close> when the file does not exist, \<open>file\<close> is
  the output file before the call. The result is the returned flag and the output file.
  Every exception is caught and gives \<open>False\<close>: one raised by the search, the
  \<^verbatim>\<open>ValueError\<close> of a chunk size of 0, and the division by zero in the final report when
  no row was processed.
\<close>

definition match_locations ::
  "settings \<Rightarrow> 'f backend
     \<Rightarrow> ((nat \<times> 'f location list \<times> string) list \<Rightarrow> (nat \<times> 'f location list \<times> string) list)
     \<Rightarrow> string \<Rightarrow> 'f user_csv option \<Rightarrow> 'f out_file \<Rightarrow> bool \<times> 'f out_file" where
  "match_locations self es as_completed place_type input_csv file =
     (case input_csv of
        None \<Rightarrow> (False, file)
      | Some csv \<Rightarrow>
          if chunk_size self = 0 then (False, file)
          else (case chunk_loop self es as_completed place_type (columns csv)
                       \<lparr> all_results = [], processed_count = 0, matched_count = 0,
                         first_write = True, output_file = file \<rparr>
                       (read_csv_chunks (chunk_size self) (csv_rows csv)) of
                  (Some e, st) \<Rightarrow> (False, output_file st)
                | (None, st) \<Rightarrow>
                    (let out = (if first_write st
                                then save_results (all_results st) ''w'' True (output_file st)
                                else save_results (all_results st) ''a'' False (output_file st))
                     in (processed_count st \<noteq> 0, out))))"

text \<open>
  A reply that makes \<^verbatim>\<open>sync_msearch\<close> go to its next attempt: the request raised, the
  status is not 200, or the body is not JSON.
\<close>

definition attempt_fails :: "'f es_reply \<Rightarrow> bool" where
  "attempt_fails r =
     (case r of RequestFailed \<Rightarrow> True | Response status body \<Rightarrow> status \<noteq> 200 \<or> body = NotJson)"

text \<open>
  What the specification says one sub-response contributes for its row: nothing when it
  carries an error or has no hit, otherwise one row whose distance is the first sort value of
  the first (nearest) hit.
\<close>

definition expected_rows :: "string \<Rightarrow> 'f location \<Rightarrow> 'f sub_response \<Rightarrow> 'f match_row list" where
  "expected_rows place_type loc resp =
     (case resp of
        SubError \<Rightarrow> []
      | SubHits total_value hits \<Rightarrow>
          if total_value = 0 then []
          else [make_result place_type loc (hd hits) (hd (sort_values (hd hits)))])"

text \<open>A sub-response that reports hits carries the nearest one with its distance.\<close>

definition well_formed :: "'f sub_response \<Rightarrow> bool" where
  "well_formed resp =
     (case resp of
        SubError \<Rightarrow> True
      | SubHits total_value hits \<Rightarrow>
          total_value = 0 \<or> (hits \<noteq> [] \<and> sort_values (hd hits) \<noteq> []))"

text \<open>
  A backend that answers every query on its own, by \<open>answer\<close>, whatever else is in the
  body: for every body, after fewer failed attempts than \<open>max_retries\<close> allows, the reply is
  200 with one sub-response per query.
\<close>

definition answers_each_query ::
  "settings \<Rightarrow> 'f backend \<Rightarrow> ('f geo_query \<Rightarrow> 'f sub_response) \<Rightarrow> bool" where
  "answers_each_query self es answer =
     (\<forall>body. \<exists>k < max_retries self.
        (\<forall>j < k. attempt_fails (es body j))
        \<and> es body k = Response 200 (Object (Some (map answer body))))"

text \<open>The rows one location contributes when its query is answered by \<open>answer\<close>.\<close>

definition matches_of ::
  "string \<Rightarrow> ('f geo_query \<Rightarrow> 'f sub_response) \<Rightarrow> 'f location \<Rightarrow> 'f match_row list" where
  "matches_of place_type answer loc =
     expected_rows place_type loc (answer (make_query place_type loc))"

text \<open>
  The single unchunked pass of the specification: the rows of the whole file are filtered
  at once, and every remaining row is matched on its own.
\<close>

definition unchunked_pass ::
  "string \<Rightarrow> ('f geo_query \<Rightarrow> 'f sub_response) \<Rightarrow> 'f user_csv \<Rightarrow> 'f match_row list" where
  "unchunked_pass place_type answer csv =
     concat (map (matches_of place_type answer)
               (chunk_locations place_type (columns csv) (csv_rows csv)))"

text \<open>
  Of the segments written to a file, only the first carries the CSV header.
\<close>

definition headers_ok :: "'f out_file \<Rightarrow> bool" where
  "headers_ok segs =
     (case segs of [] \<Rightarrow> True | first # later \<Rightarrow> fst first \<and> list_all (\<lambda>seg. \<not> fst seg) later)"

text \<open>The segments \<^verbatim>\<open>match_locations\<close> has written so far: none before the first write.\<close>

definition written_segments :: "'f match_state \<Rightarrow> 'f out_file" where
  "written_segments st = (if first_write st then [] else output_file st)"

text \<open>
  Sample data for the closed instances: device rows with integer coordinates, a backend
  that finds a place for devices at latitude 1 and none elsewhere, and a pool that completes
  its batches in reverse order.
\<close>

definition sample_rows :: "int user_row list" where
  "sample_rows =
     [\<lparr> u_lat = Some 1, u_lon = Some 10, u_adid = ''a'', u_time_type = Some ''DAY'' \<rparr>,
      \<lparr> u_lat = Some 1, u_lon = Some 20, u_adid = ''b'', u_time_type = Some ''NIGHT'' \<rparr>,
      \<lparr> u_lat = None, u_lon = Some 30, u_adid = ''c'', u_time_type = Some ''DAY'' \<rparr>,
      \<lparr> u_lat = Some 2, u_lon = Some 40, u_adid = ''d'', u_time_type = Some ''DAY'' \<rparr>,
      \<lparr> u_lat = Some 1, u_lon = Some 50, u_adid = ''e'', u_time_type = None \<rparr>]"

definition sample_hit :: "int hit" where
  "sample_hit = \<lparr> source = [''fac_cd'' \<mapsto> ''F1'', ''ctp_cd'' \<mapsto> ''4600000000''],
                  sort_values = [120] \<rparr>"

definition sample_answer :: "int geo_query \<Rightarrow> int sub_response" where
  "sample_answer q = (if q_lat q = 1 then SubHits 1 [sample_hit] else SubHits 0 [])"

definition sample_backend :: "int backend" where
  "sample_backend body attempt =
     (if attempt = 0 then RequestFailed else Response 200 (Object (Some (map sample_answer body))))"

definition small_settings :: settings where
  "small_settings = \<lparr> batch_size = 1, chunk_size = 2, max_retries = 3, save_interval = 1 \<rparr>"

definition sample_csv :: "int user_csv" where
  "sample_csv = \<lparr> columns = [''adid'', ''lat'', ''lon''], csv_rows = sample_rows \<rparr>"

definition sample_row :: "int \<Rightarrow> string \<Rightarrow> int match_row" where
  "sample_row lo a = \<lparr> row_adid = a, row_lat = 1, row_lon = lo, row_distance = 120,
              row_codes = [(''fac_cd'', Some ''F1''), (''ctp_cd'', Some ''4600000000''),
                           (''sig_cd'', None), (''emd_cd'', None)] \<rparr>"

section \<open>Paginated collection (data\_pipeline/collectors/collect\_industry\_codes.py)\<close>

text \<open>
  The JSON object of one page: the list under \<^verbatim>\<open>'data'\<close> (\<open>None\<close> when the key is
  absent) and the number under \<^verbatim>\<open>'totalCount'\<close> (\<open>None\<close> when absent, read as 0).
\<close>

record 'i page_object =
  data_items :: "'i list option"
  totalCount :: "int option"

text \<open>The server: the reply to the request for a page.\<close>

type_synonym 'i listing_api = "nat \<Rightarrow> 'i page_object http"

definition per_page :: nat where
  "per_page = 1000"

text \<open>
  What one pass through the body of \<^verbatim>\<open>while True\<close> does: it leaves the loop with the
  records collected, raises, or goes on with the next page.
\<close>

datatype 'i iteration = Break "'i list" | Raise pyerr | Continue nat "'i list"

text \<open>
  The body of the loop of \<^verbatim>\<open>fetch_all_pages\<close>. A failed request, an error status and a
  body that is not JSON are re-raised as a plain \<^verbatim>\<open>Exception\<close>; a body that is not an
  object, or has no \<^verbatim>\<open>'data'\<close>, raises one directly.
\<close>

definition loop_body :: "'i listing_api \<Rightarrow> nat \<Rightarrow> 'i list \<Rightarrow> 'i iteration" where
  "loop_body api page all_data =
     (case api page of
        RequestFailed \<Rightarrow> Raise PlainException
      | Response status body \<Rightarrow>
          if 400 \<le> status \<and> status < 600 then Raise PlainException
          else (case body of
                  NotJson \<Rightarrow> Raise PlainException
                | NotObject \<Rightarrow> Raise PlainException
                | Object d \<Rightarrow>
                    (case data_items d of
                       None \<Rightarrow> Raise PlainException
                     | Some items \<Rightarrow>
                         if items = [] then Break all_data
                         else (let all_data = all_data @ items;
                                   total_count = (case totalCount d of None \<Rightarrow> 0 | Some t \<Rightarrow> t)
                               in if int (length all_data) \<ge> total_count
                                     \<or> length items < per_page
                                  then Break all_data
                                  else if page + 1 > 100 then Break all_data
                                  else Continue (page + 1) all_data))))"

function fetch_loop :: "'i listing_api \<Rightarrow> nat \<Rightarrow> 'i list \<Rightarrow> pyerr + 'i list" where
  "fetch_loop api page all_data =
     (case loop_body api page all_data of
        Break result \<Rightarrow> Inr result
      | Raise e \<Rightarrow> Inl e
      | Continue next_page collected \<Rightarrow> fetch_loop api next_page collected)"
  by pat_completeness auto
termination
  by (relation "measure (\<lambda>(api, page, all_data). 101 - page)")
     (auto simp: loop_body_def Let_def
           split: http.splits json_body.splits option.splits if_splits)

declare fetch_loop.simps [simp del]

definition fetch_all_pages :: "'i listing_api \<Rightarrow> pyerr + 'i list" where
  "fetch_all_pages api = fetch_loop api 1 []"

text \<open>
  A sample server with 2500 records: two full pages, then a page of 500, then nothing.
\<close>

definition sample_listing :: "nat listing_api" where
  "sample_listing page =
     Response 200 (Object \<lparr> data_items = Some (if page \<le> 2 then replicate 1000 page
                                                 else if page = 3 then replicate 500 page
                                                 else []),
                             totalCount = Some 2500 \<rparr>)"

section \<open>Dated snapshot files (core/utils.py, collectors)\<close>

text \<open>
  A directory: its entries, by name, with their contents. The operating system may refuse
  to write or to delete an entry (\<^verbatim>\<open>PermissionError\<close> and the like); the code expects
  that for deletions, which it wraps in \<^verbatim>\<open>try\<close> / \<^verbatim>\<open>except Exception: pass\<close>.
\<close>

type_synonym 'c directory = "(ustring \<times> 'c) list"

record os_model =
  refuses_write :: "ustring \<Rightarrow> bool"
  refuses_unlink :: "ustring \<Rightarrow> bool"

definition file_names :: "'c directory \<Rightarrow> ustring list" where
  "file_names dir = map fst dir"

definition read_file :: "'c directory \<Rightarrow> ustring \<Rightarrow> 'c option" where
  "read_file dir name = map_of dir name"

text \<open>\<^verbatim>\<open>df.to_csv(path)\<close>: creates the file or replaces its content.\<close>

definition to_csv :: "os_model \<Rightarrow> ustring \<Rightarrow> 'c \<Rightarrow> 'c directory \<Rightarrow> pyerr + 'c directory" where
  "to_csv os name content dir =
     (if refuses_write os name then Inl OSError
      else Inr ((name, content) # filter (\<lambda>e. fst e \<noteq> name) dir))"

text \<open>\<^verbatim>\<open>path.unlink()\<close>: raises when the file is missing or the deletion is refused.\<close>

definition unlink :: "os_model \<Rightarrow> ustring \<Rightarrow> 'c directory \<Rightarrow> pyerr + 'c directory" where
  "unlink os name dir =
     (if name \<notin> set (file_names dir) \<or> refuses_unlink os name then Inl OSError
      else Inr (filter (\<lambda>e. fst e \<noteq> name) dir))"

text \<open>\<^verbatim>\<open>s.endswith(p)\<close>.\<close>

definition endswith :: "ustring \<Rightarrow> ustring \<Rightarrow> bool" where
  "endswith s p = (length p \<le> length s \<and> drop (length s - length p) s = p)"

text \<open>
  A glob pattern with one \<^verbatim>\<open>*\<close> and otherwise literal text, as all patterns here are:
  the text before the star and the text behind it. A name matches when it starts with the
  one, ends with the other, and the two do not overlap.
\<close>

type_synonym pattern = "ustring \<times> ustring"

definition matches :: "pattern \<Rightarrow> ustring \<Rightarrow> bool" where
  "matches pat name =
     (length (fst pat) + length (snd pat) \<le> length name
      \<and> startswith name (fst pat) \<and> endswith name (snd pat))"

text \<open>\<^verbatim>\<open>list(target_dir.glob(pattern))\<close>.\<close>

definition glob :: "'c directory \<Rightarrow> pattern \<Rightarrow> ustring list" where
  "glob dir pat = filter (matches pat) (file_names dir)"

text \<open>
  The loop of both cleanup functions: every listed file other than \<open>keep_file\<close> is
  unlinked, and an exception of \<^verbatim>\<open>unlink\<close> is swallowed.
\<close>

fun cleanup_loop :: "os_model \<Rightarrow> ustring \<Rightarrow> ustring list \<Rightarrow> 'c directory \<Rightarrow> 'c directory" where
  "cleanup_loop os keep_file [] dir = dir"
| "cleanup_loop os keep_file (file_path # old_files) dir =
     (if file_path \<noteq> keep_file then
        (case unlink os file_path dir of
           Inr dir' \<Rightarrow> cleanup_loop os keep_file old_files dir'
         | Inl e \<Rightarrow> cleanup_loop os keep_file old_files dir)
      else cleanup_loop os keep_file old_files dir)"

text \<open>\<^verbatim>\<open>cleanup_old_files(pattern, keep_file, target_dir)\<close> of the collectors.\<close>

definition cleanup_old_files :: "os_model \<Rightarrow> pattern \<Rightarrow> ustring \<Rightarrow> 'c directory \<Rightarrow> 'c directory" where
  "cleanup_old_files os pat keep_file target_dir =
     cleanup_loop os keep_file (glob target_dir pat) target_dir"

text \<open>The pattern \<^verbatim>\<open>f"{data_name}_*.csv"\<close>.\<close>

definition dataset_pattern :: "ustring \<Rightarrow> pattern" where
  "dataset_pattern data_name = (data_name @ ascii ''_'', ascii ''.csv'')"

text \<open>\<^verbatim>\<open>ReferenceDataManager._cleanup_old_files(keep_file)\<close>, for the manager of \<open>data_name\<close>.\<close>

definition manager_cleanup_old_files ::
  "os_model \<Rightarrow> ustring \<Rightarrow> ustring \<Rightarrow> 'c directory \<Rightarrow> 'c directory" where
  "manager_cleanup_old_files os data_name keep_file final_dir =
     cleanup_loop os keep_file (glob final_dir (dataset_pattern data_name)) final_dir"

text \<open>
  \<^verbatim>\<open>ReferenceDataManager.save_to_csv(df)\<close>: \<open>today\<close> is the date as
  \<^verbatim>\<open>strftime('%Y%m%d')\<close> gives it. The result is the name of the written file and the
  directory afterwards; an exception of the write is raised to the caller.
\<close>

definition save_to_csv ::
  "os_model \<Rightarrow> ustring \<Rightarrow> ustring \<Rightarrow> 'c \<Rightarrow> 'c directory \<Rightarrow> pyerr + (ustring \<times> 'c directory)" where
  "save_to_csv os today data_name df final_dir =
     (let csv_filename = data_name @ ascii ''_'' @ today @ ascii ''.csv''
      in case to_csv os csv_filename df final_dir of
           Inl e \<Rightarrow> Inl e
         | Inr written \<Rightarrow>
             Inr (csv_filename, manager_cleanup_old_files os data_name csv_filename written))"

text \<open>The dataset name of the industry codes, and the middle part of its raw files.\<close>

definition industry_codes :: ustring where
  "industry_codes = [50629, 51333, 53076, 46300]"

text \<open>
  \<^verbatim>\<open>save_raw_to_csv\<close> of collect\_industry\_codes.py: the raw snapshot, then the cleanup of
  the raw directory with the pattern of the raw files.
\<close>

definition save_raw_to_csv ::
  "os_model \<Rightarrow> ustring \<Rightarrow> 'c \<Rightarrow> 'c directory \<Rightarrow> pyerr + (ustring \<times> 'c directory)" where
  "save_raw_to_csv os today data_list raw_dir =
     (let raw_filename = industry_codes @ ascii ''_raw_'' @ today @ ascii ''.csv''
      in case to_csv os raw_filename data_list raw_dir of
           Inl e \<Rightarrow> Inl e
         | Inr written \<Rightarrow>
             Inr (raw_filename,
                  cleanup_old_files os (industry_codes @ ascii ''_raw_'', ascii ''.csv'')
                    raw_filename written))"

text \<open>Sample data: an operating system that refuses nothing, and one that keeps one file.\<close>

definition permissive :: os_model where
  "permissive = \<lparr> refuses_write = (\<lambda>name. False), refuses_unlink = (\<lambda>name. False) \<rparr>"

definition locks_2024 :: os_model where
  "locks_2024 = \<lparr> refuses_write = (\<lambda>name. False),
                  refuses_unlink = (\<lambda>name. name = ascii ''places_20240101.csv'') \<rparr>"

definition old_final_dir :: "nat directory" where
  "old_final_dir = [(ascii ''places_20240101.csv'', 1), (ascii ''places_20240505.csv'', 2),
                    (ascii ''schools_20240101.csv'', 3)]"

section \<open>Properties\<close>

text \<open>
  C9. \<^verbatim>\<open>remove_address_duplicates\<close> on the province name, the district name that repeats
  the province, and the sub-district name that repeats both, returns the province name, the
  bare district name and the bare sub-district name: the province is stripped from the
  front of the district, and the prefixes from the front of the sub-district.
\<close>

theorem remove_address_duplicates_example:
  "remove_address_duplicates
     (Some jeollanamdo)
     (Some (jeollanamdo @ [32] @ naju_si))
     (Some (jeollanamdo @ [32] @ naju_si @ [32] @ dong_00))
   = (jeollanamdo, naju_si, dong_00)"
  by (simp add: remove_address_duplicates_def notna_str_strip_def strip_def startswith_def
      jeollanamdo_def naju_si_def dong_00_def isspace_def)

subsection \<open>The geocoding client\<close>

lemma address_search_try_cases:
  "address_search_try float_of RequestFailed = Inl RequestException"
  "400 \<le> st \<and> st < 600 \<Longrightarrow> address_search_try float_of (Response st b) = Inl HTTPError"
  "\<not> (400 \<le> st \<and> st < 600) \<Longrightarrow>
     address_search_try float_of (Response st NotJson) = Inl JSONDecodeError"
  "\<not> (400 \<le> st \<and> st < 600) \<Longrightarrow>
     address_search_try float_of (Response st NotObject) = Inl AttributeError"
  "\<not> (400 \<le> st \<and> st < 600) \<Longrightarrow>
     address_search_try float_of (Response st (Object None)) = Inr None"
  "\<not> (400 \<le> st \<and> st < 600) \<Longrightarrow>
     address_search_try float_of (Response st (Object (Some []))) = Inr None"
  by (simp_all add: address_search_try_def)

lemma address_search_try_first:
  "\<not> (400 \<le> st \<and> st < 600) \<Longrightarrow>
   address_search_try float_of (Response st (Object (Some (d # ds)))) =
     (case Option.bind (d ''x'') float_of of
        None \<Rightarrow> Inl (if d ''x'' = None then KeyError else ValueError)
      | Some lon \<Rightarrow>
          (case Option.bind (d ''y'') float_of of
             None \<Rightarrow> Inl (if d ''y'' = None then KeyError else ValueError)
           | Some lat \<Rightarrow> Inr (Some (lon, lat))))"
  by (simp add: address_search_try_def split: option.splits Option.bind_splits)

lemma get_coordinates_of_try:
  "address \<noteq> [] \<Longrightarrow> strip address \<noteq> [] \<Longrightarrow>
   get_coordinates_from_address float_of kakao address =
     (case address_search_try float_of (kakao address) of
        Inr (Some (lon, lat)) \<Rightarrow> Inr (Some lon, Some lat)
      | _ \<Rightarrow> Inr (None, None))"
  by (simp add: get_coordinates_from_address_def split: sum.splits option.splits)

lemma get_coordinates_blank:
  "address = [] \<or> strip address = [] \<Longrightarrow>
   get_coordinates_from_address float_of kakao address = Inr (None, None)"
  by (simp add: get_coordinates_from_address_def)

lemma get_coordinates_total:
  "\<exists>r. get_coordinates_from_address float_of kakao address = Inr r"
proof (cases "address = [] \<or> strip address = []")
  case True
  then show ?thesis by (simp add: get_coordinates_blank)
next
  case False
  then show ?thesis
    by (simp add: get_coordinates_of_try split: sum.splits option.splits prod.splits)
qed

lemma get_coordinates_request_error:
  assumes "kakao address = RequestFailed
     \<or> (\<exists>st b. kakao address = Response st b \<and> 400 \<le> st \<and> st < 600)
     \<or> (\<exists>st. kakao address = Response st NotJson)
     \<or> (\<exists>st. kakao address = Response st NotObject)"
  shows "get_coordinates_from_address float_of kakao address = Inr (None, None)"
proof (cases "address = [] \<or> strip address = []")
  case True
  then show ?thesis by (simp add: get_coordinates_blank)
next
  case False
  have "\<exists>e. address_search_try float_of (kakao address) = Inl e"
    using assms by (auto simp: address_search_try_def)
  then show ?thesis using False by (auto simp: get_coordinates_of_try)
qed

lemma get_coordinates_no_documents:
  assumes "kakao address = Response st (Object None)
     \<or> kakao address = Response st (Object (Some []))"
  shows "get_coordinates_from_address float_of kakao address = Inr (None, None)"
proof (cases "address = [] \<or> strip address = []")
  case True
  then show ?thesis by (simp add: get_coordinates_blank)
next
  case False
  have "address_search_try float_of (kakao address) = Inr None
        \<or> address_search_try float_of (kakao address) = Inl HTTPError"
    using assms by (auto simp: address_search_try_def)
  then show ?thesis using False by (auto simp: get_coordinates_of_try)
qed

lemma get_coordinates_unconvertible:
  assumes "kakao address = Response st (Object (Some (d # ds)))"
    and "Option.bind (d ''x'') float_of = None \<or> Option.bind (d ''y'') float_of = None"
  shows "get_coordinates_from_address float_of kakao address = Inr (None, None)"
proof (cases "address = [] \<or> strip address = []")
  case True
  then show ?thesis by (simp add: get_coordinates_blank)
next
  case False
  have "\<exists>e. address_search_try float_of (kakao address) = Inl e"
  proof (cases "400 \<le> st \<and> st < 600")
    case True
    then show ?thesis using assms(1) by (simp add: address_search_try_cases)
  next
    case False
    then show ?thesis using assms by (auto simp: address_search_try_first split: option.splits)
  qed
  then show ?thesis using False by (auto simp: get_coordinates_of_try)
qed

lemma get_coordinates_first_document:
  assumes "address \<noteq> []" and "strip address \<noteq> []"
    and "kakao address = Response st (Object (Some (d # ds)))"
    and "\<not> (400 \<le> st \<and> st < 600)"
    and "Option.bind (d ''x'') float_of = Some lon"
    and "Option.bind (d ''y'') float_of = Some lat"
  shows "get_coordinates_from_address float_of kakao address = Inr (Some lon, Some lat)"
  using assms by (simp add: get_coordinates_of_try address_search_try_first)

lemma region_lookup_try_documents:
  "region_lookup_try (Response 200 (Object (Some ds))) =
     Inr (map_option legal_dong_of_doc (find_legal_dong ds))"
  by (cases ds) (simp_all add: region_lookup_try_def split: option.splits)

lemma get_legal_dong_total:
  "\<exists>r. get_legal_dong_from_coord kakao lon lat = Inr r"
  by (simp add: get_legal_dong_from_coord_def split: sum.splits)

lemma get_legal_dong_of_try:
  "get_legal_dong_from_coord kakao lon lat =
     (case region_lookup_try (kakao lon lat) of Inr res \<Rightarrow> Inr res | Inl e \<Rightarrow> Inr None)"
  by (simp add: get_legal_dong_from_coord_def)

lemma region_lookup_try_none:
  assumes "r = RequestFailed
     \<or> (\<exists>st b. r = Response st b \<and> st \<noteq> 200)
     \<or> (\<exists>st. r = Response st NotJson)
     \<or> (\<exists>st. r = Response st NotObject)
     \<or> (\<exists>st. r = Response st (Object None))
     \<or> (\<exists>st. r = Response st (Object (Some [])))
     \<or> (\<exists>st ds. r = Response st (Object (Some ds)) \<and> find_legal_dong ds = None)"
  shows "region_lookup_try r = Inr None \<or> (\<exists>e. region_lookup_try r = Inl e)"
proof (cases r)
  case RequestFailed
  then show ?thesis by (simp add: region_lookup_try_def)
next
  case (Response st b)
  show ?thesis
  proof (cases "st = 200")
    case False
    then show ?thesis using Response by (simp add: region_lookup_try_def)
  next
    case True
    show ?thesis
    proof (cases b)
      case NotJson
      then show ?thesis using Response True by (simp add: region_lookup_try_def)
    next
      case NotObject
      then show ?thesis using Response True by (simp add: region_lookup_try_def)
    next
      case (Object documents)
      show ?thesis
      proof (cases documents)
        case None
        then show ?thesis using Response True Object by (simp add: region_lookup_try_def)
      next
        case (Some ds)
        have "find_legal_dong ds = None"
          using assms Response True Object Some by auto
        then show ?thesis
          using Response True Object Some by (simp add: region_lookup_try_documents)
      qed
    qed
  qed
qed

lemma get_legal_dong_none:
  assumes "kakao lon lat = RequestFailed
     \<or> (\<exists>st b. kakao lon lat = Response st b \<and> st \<noteq> 200)
     \<or> (\<exists>st. kakao lon lat = Response st NotJson)
     \<or> (\<exists>st. kakao lon lat = Response st NotObject)
     \<or> (\<exists>st. kakao lon lat = Response st (Object None))
     \<or> (\<exists>st. kakao lon lat = Response st (Object (Some [])))
     \<or> (\<exists>st ds. kakao lon lat = Response st (Object (Some ds)) \<and> find_legal_dong ds = None)"
  shows "get_legal_dong_from_coord kakao lon lat = Inr None"
  using region_lookup_try_none [OF assms]
  by (auto simp: get_legal_dong_of_try)

lemma get_legal_dong_some:
  assumes "kakao lon lat = Response 200 (Object (Some ds))" and "find_legal_dong ds = Some d"
  shows "get_legal_dong_from_coord kakao lon lat = Inr (Some (legal_dong_of_doc d))"
  using assms by (simp add: get_legal_dong_from_coord_def region_lookup_try_documents)

text \<open>
  C3, as the code has it. The client never raises to its caller.
  \<^verbatim>\<open>get_coordinates_from_address\<close> returns \<open>(None, None)\<close> when the address is empty or
  blank, when the request raises, answers with an error status or with a body that is not a
  JSON object, when the answer has no documents, and also when the first document has no
  \<^verbatim>\<open>x\<close> or \<^verbatim>\<open>y\<close> that \<^verbatim>\<open>float()\<close> converts; otherwise it returns the longitude and
  latitude of the first document. \<^verbatim>\<open>get_legal_dong_from_coord\<close> returns \<open>None\<close> on a
  status other than 200, on missing documents, when no document is of type B, and on any
  exception; otherwise the entry of the first B-type document.
\<close>

theorem kakao_client_never_raises:
  "(\<exists>r. get_coordinates_from_address float_of kakao address = Inr r)
   \<and> (address = [] \<or> strip address = [] \<longrightarrow>
        get_coordinates_from_address float_of kakao address = Inr (None, None))
   \<and> (kakao address = RequestFailed
        \<or> (\<exists>st b. kakao address = Response st b \<and> 400 \<le> st \<and> st < 600)
        \<or> (\<exists>st. kakao address = Response st NotJson)
        \<or> (\<exists>st. kakao address = Response st NotObject) \<longrightarrow>
        get_coordinates_from_address float_of kakao address = Inr (None, None))
   \<and> (\<forall>st. kakao address = Response st (Object None)
             \<or> kakao address = Response st (Object (Some [])) \<longrightarrow>
        get_coordinates_from_address float_of kakao address = Inr (None, None))
   \<and> (\<forall>st d ds. kakao address = Response st (Object (Some (d # ds)))
          \<and> (Option.bind (d ''x'') float_of = None \<or> Option.bind (d ''y'') float_of = None) \<longrightarrow>
        get_coordinates_from_address float_of kakao address = Inr (None, None))
   \<and> (\<forall>st d ds lon lat. address \<noteq> [] \<and> strip address \<noteq> []
          \<and> kakao address = Response st (Object (Some (d # ds)))
          \<and> \<not> (400 \<le> st \<and> st < 600)
          \<and> Option.bind (d ''x'') float_of = Some lon
          \<and> Option.bind (d ''y'') float_of = Some lat \<longrightarrow>
        get_coordinates_from_address float_of kakao address = Inr (Some lon, Some lat))
   \<and> (\<exists>r. get_legal_dong_from_coord region x y = Inr r)
   \<and> (region x y = RequestFailed
        \<or> (\<exists>st b. region x y = Response st b \<and> st \<noteq> 200)
        \<or> (\<exists>st. region x y = Response st NotJson)
        \<or> (\<exists>st. region x y = Response st NotObject)
        \<or> (\<exists>st. region x y = Response st (Object None))
        \<or> (\<exists>st. region x y = Response st (Object (Some [])))
        \<or> (\<exists>st ds. region x y = Response st (Object (Some ds)) \<and> find_legal_dong ds = None) \<longrightarrow>
        get_legal_dong_from_coord region x y = Inr None)
   \<and> (\<forall>ds d. region x y = Response 200 (Object (Some ds)) \<and> find_legal_dong ds = Some d \<longrightarrow>
        get_legal_dong_from_coord region x y = Inr (Some (legal_dong_of_doc d)))"
proof -
  have c1: "\<exists>r. get_coordinates_from_address float_of kakao address = Inr r"
    by (rule get_coordinates_total)
  have c2: "address = [] \<or> strip address = [] \<longrightarrow>
        get_coordinates_from_address float_of kakao address = Inr (None, None)"
    using get_coordinates_blank [of address float_of kakao] by blast
  have c3: "kakao address = RequestFailed
        \<or> (\<exists>st b. kakao address = Response st b \<and> 400 \<le> st \<and> st < 600)
        \<or> (\<exists>st. kakao address = Response st NotJson)
        \<or> (\<exists>st. kakao address = Response st NotObject) \<longrightarrow>
        get_coordinates_from_address float_of kakao address = Inr (None, None)"
    using get_coordinates_request_error [of kakao address float_of] by blast
  have c4: "\<forall>st. kakao address = Response st (Object None)
             \<or> kakao address = Response st (Object (Some [])) \<longrightarrow>
        get_coordinates_from_address float_of kakao address = Inr (None, None)"
    using get_coordinates_no_documents [of kakao address _ float_of] by blast
  have c5: "\<forall>st d ds. kakao address = Response st (Object (Some (d # ds)))
          \<and> (Option.bind (d ''x'') float_of = None \<or> Option.bind (d ''y'') float_of = None) \<longrightarrow>
        get_coordinates_from_address float_of kakao address = Inr (None, None)"
    using get_coordinates_unconvertible [of kakao address _ _ _ float_of] by blast
  have c6: "\<forall>st d ds lon lat. address \<noteq> [] \<and> strip address \<noteq> []
          \<and> kakao address = Response st (Object (Some (d # ds)))
          \<and> \<not> (400 \<le> st \<and> st < 600)
          \<and> Option.bind (d ''x'') float_of = Some lon
          \<and> Option.bind (d ''y'') float_of = Some lat \<longrightarrow>
        get_coordinates_from_address float_of kakao address = Inr (Some lon, Some lat)"
    using get_coordinates_first_document [of address kakao _ _ _ float_of] by blast
  have c7: "\<exists>r. get_legal_dong_from_coord region x y = Inr r"
    by (rule get_legal_dong_total)
  have c8: "region x y = RequestFailed
        \<or> (\<exists>st b. region x y = Response st b \<and> st \<noteq> 200)
        \<or> (\<exists>st. region x y = Response st NotJson)
        \<or> (\<exists>st. region x y = Response st NotObject)
        \<or> (\<exists>st. region x y = Response st (Object None))
        \<or> (\<exists>st. region x y = Response st (Object (Some [])))
        \<or> (\<exists>st ds. region x y = Response st (Object (Some ds)) \<and> find_legal_dong ds = None) \<longrightarrow>
        get_legal_dong_from_coord region x y = Inr None"
    using get_legal_dong_none [of region x y] by blast
  have c9: "\<forall>ds d. region x y = Response 200 (Object (Some ds)) \<and> find_legal_dong ds = Some d \<longrightarrow>
        get_legal_dong_from_coord region x y = Inr (Some (legal_dong_of_doc d))"
    using get_legal_dong_some [of region x y] by blast
  show ?thesis
    by (intro conjI c1 c2 c3 c4 c5 c6 c7 c8 c9)
qed

theorem kakao_client_never_raises_witness:
  "get_coordinates_from_address float_of_sample
     (\<lambda>q. Response 200 (Object (Some [doc_xy]))) (ascii ''Naju'') = Inr (Some 12671, Some 3501)
   \<and> get_coordinates_from_address float_of_sample
       (\<lambda>q. Response 200 (Object (Some [doc_xy]))) (ascii '' '') = Inr (None, None)
   \<and> get_coordinates_from_address float_of_sample
       (\<lambda>q. Response 503 NotJson) (ascii ''Naju'') = Inr (None, None)
   \<and> get_coordinates_from_address float_of_sample
       (\<lambda>q. Response 200 (Object (Some []))) (ascii ''Naju'') = Inr (None, None)
   \<and> get_coordinates_from_address float_of_sample
       (\<lambda>q. Response 200 (Object (Some [doc_legal]))) (ascii ''Naju'') = Inr (None, None)
   \<and> get_legal_dong_from_coord
       (\<lambda>lon lat. Response 200 (Object (Some [doc_admin, doc_legal]))) (12671::int) (3501::int)
       = Inr (Some (legal_dong_of_doc doc_legal))
   \<and> get_legal_dong_from_coord
       (\<lambda>lon lat. Response 404 NotJson) (12671::int) (3501::int) = Inr None
   \<and> get_legal_dong_from_coord
       (\<lambda>lon lat. Response 200 (Object (Some [doc_admin]))) (12671::int) (3501::int) = Inr None"
proof -
  have s1: "ascii ''Naju'' \<noteq> [] \<and> strip (ascii ''Naju'') \<noteq> []"
    by (simp add: ascii_def strip_def isspace_def)
  have s2: "strip (ascii '' '') = []"
    by (simp add: ascii_def strip_def isspace_def)
  have x: "Option.bind (doc_xy ''x'') float_of_sample = Some 12671"
    by (simp add: doc_xy_def float_of_sample_def ascii_def)
  have y: "Option.bind (doc_xy ''y'') float_of_sample = Some 3501"
    by (simp add: doc_xy_def float_of_sample_def ascii_def)
  have n: "Option.bind (doc_legal ''x'') float_of_sample = None"
    by (simp add: doc_legal_def)
  have f1: "find_legal_dong [doc_admin, doc_legal] = Some doc_legal"
    by (simp add: doc_admin_def doc_legal_def ascii_def)
  have f2: "find_legal_dong [doc_admin] = None"
    by (simp add: doc_admin_def ascii_def)
  show ?thesis
    using s1 s2 x y n f1 f2
      kakao_client_never_raises [of float_of_sample
        "\<lambda>q. Response 200 (Object (Some [doc_xy]))" "ascii ''Naju''"
        "\<lambda>lon lat. Response 200 (Object (Some [doc_admin, doc_legal]))" "12671::int" "3501::int"]
      kakao_client_never_raises [of float_of_sample
        "\<lambda>q. Response 200 (Object (Some [doc_xy]))" "ascii '' ''"
        "\<lambda>lon lat. Response 404 NotJson" "12671::int" "3501::int"]
      kakao_client_never_raises [of float_of_sample
        "\<lambda>q. Response 503 NotJson" "ascii ''Naju''"
        "\<lambda>lon lat. Response 200 (Object (Some [doc_admin]))" "12671::int" "3501::int"]
      kakao_client_never_raises [of float_of_sample
        "\<lambda>q. Response 200 (Object (Some []))" "ascii ''Naju''"
        "\<lambda>lon lat. Response 404 NotJson" "12671::int" "3501::int"]
      kakao_client_never_raises [of float_of_sample
        "\<lambda>q. Response 200 (Object (Some [doc_legal]))" "ascii ''Naju''"
        "\<lambda>lon lat. Response 404 NotJson" "12671::int" "3501::int"]
    by simp
qed

text \<open>
  The claim as stated fails where the answer has a first document without coordinates:
  the address is not blank, the request succeeds and there is a document, and the result
  is \<open>(None, None)\<close>, not a pair of floats (the \<^verbatim>\<open>KeyError\<close> is swallowed).
\<close>

theorem kakao_client_first_document_counterexample:
  "ascii ''Naju'' \<noteq> [] \<and> strip (ascii ''Naju'') \<noteq> []
   \<and> get_coordinates_from_address float_of_sample
        (\<lambda>q. Response 200 (Object (Some [Map.empty]))) (ascii ''Naju'') = Inr (None, None)"
  by (simp add: get_coordinates_from_address_def address_search_try_def ascii_def strip_def
      isspace_def)

text \<open>
  C4. For the code \<open>c\<close> of the legal-division document, both reverse-geocoding functions
  return: as province code the first two characters followed by eight zeros when \<open>c\<close>
  has at least two characters, as district code the first five followed by five zeros when it
  has at least five, as sub-district code \<open>c\<close> itself when it has exactly ten; and
  \<open>None\<close> otherwise.
\<close>

theorem region_code_decomposition:
  assumes "kakao lon lat = Response 200 (Object (Some ds))"
    and "find_legal_dong ds = Some d"
    and "c = get_or_empty d ''code''"
  shows "\<exists>r. get_legal_dong_from_coord kakao lon lat = Inr (Some r)
           \<and> enrich_get_legal_dong_from_coord kakao lon lat = Inr (Some r)
           \<and> ctp_cd r = (if length c \<ge> 2 then Some (take 2 c @ ascii ''00000000'') else None)
           \<and> sig_cd r = (if length c \<ge> 5 then Some (take 5 c @ ascii ''00000'') else None)
           \<and> emd_cd r = (if length c = 10 then Some c else None)"
  using assms
  by (simp add: get_legal_dong_from_coord_def enrich_get_legal_dong_from_coord_def
      region_lookup_try_documents legal_dong_of_doc_def Let_def)

theorem region_code_decomposition_witness:
  "(\<exists>r. get_legal_dong_from_coord
          (\<lambda>lon lat. Response 200 (Object (Some [doc_admin, doc_legal]))) (0::int) (0::int)
          = Inr (Some r)
        \<and> ctp_cd r = Some (ascii ''4600000000'')
        \<and> sig_cd r = Some (ascii ''4617000000'')
        \<and> emd_cd r = Some (ascii ''4617010100''))
   \<and> (\<exists>r. enrich_get_legal_dong_from_coord
          (\<lambda>lon lat. Response 200 (Object (Some [doc_short_code]))) (0::int) (0::int)
          = Inr (Some r)
        \<and> ctp_cd r = Some (ascii ''4600000000'') \<and> sig_cd r = None \<and> emd_cd r = None)"
  using region_code_decomposition [of
      "\<lambda>lon lat. Response 200 (Object (Some [doc_admin, doc_legal]))" "0::int" "0::int"
      "[doc_admin, doc_legal]" doc_legal "ascii ''4617010100''"]
    region_code_decomposition [of
      "\<lambda>lon lat. Response 200 (Object (Some [doc_short_code]))" "0::int" "0::int"
      "[doc_short_code]" doc_short_code "ascii ''461''"]
  by (auto simp: doc_admin_def doc_legal_def doc_short_code_def ascii_def get_or_empty_def)

subsection \<open>Address cleaning\<close>

lemma subseq_drop: "subseq (drop n xs) xs"
  by (metis append_take_drop_id subseq_drop_many subseq_order.order_refl)

lemma subseq_take: "subseq (take n xs) xs"
  by (metis append_take_drop_id subseq_rev_drop_many subseq_order.order_refl)

lemma re_sub_delete_subseq: "subseq (re_sub m [] s) s"
proof (induction m "[]::ustring" s rule: re_sub.induct)
  case (1 m)
  then show ?case by simp
next
  case (2 m c cs)
  show ?case
  proof (cases "m (c # cs)")
    case None
    then show ?thesis using 2 by simp
  next
    case (Some k)
    show ?thesis
    proof (cases k)
      case 0
      then show ?thesis using 2 Some by simp
    next
      case (Suc n)
      have "subseq (re_sub m [] (drop n cs)) (drop n cs)" using 2 Some Suc by simp
      then have "subseq (re_sub m [] (drop n cs)) cs"
        using subseq_drop subseq_order.order_trans by blast
      then have "subseq (re_sub m [] (drop n cs)) ([c] @ cs)" by (rule subseq_drop_many)
      then show ?thesis using Some Suc by simp
    qed
  qed
qed


lemma subseq_pair_Cons:
  "subseq [a, b] (c # t) \<longleftrightarrow> (if a = c then b \<in> set t else subseq [a, b] t)"
  by (simp add: subseq_singleton_left)

lemma span_less: "\<exists>x\<in>set xs. \<not> p x \<Longrightarrow> span p xs < length xs"
  by (induction xs) (auto simp: span_def)

lemma span_all: "(\<And>x. x \<in> set xs \<Longrightarrow> p x) \<Longrightarrow> span p xs = length xs"
  by (induction xs) (auto simp: span_def)

lemma match_parens_fires:
  "RPAREN \<in> set cs \<Longrightarrow> \<exists>n. match_parens (LPAREN # cs) = Some (Suc n)"
  using span_less [of cs "\<lambda>x. x \<noteq> RPAREN"] by (simp add: match_parens_def)

lemma subseq_set: "subseq xs ys \<Longrightarrow> x \<in> set xs \<Longrightarrow> x \<in> set ys"
  by (induction rule: list_emb.induct) auto

lemma match_parens_pos: "match_parens v \<noteq> Some 0"
  by (cases v) (simp_all add: match_parens_def)

lemma re_sub_parens_no_pair: "\<not> subseq [LPAREN, RPAREN] (re_sub match_parens [] s)"
proof (induction "match_parens" "[]::ustring" s rule: re_sub.induct)
  case 1
  then show ?case by simp
next
  case (2 c cs)
  show ?case
  proof (cases "match_parens (c # cs)")
    case None
    have ih: "\<not> subseq [LPAREN, RPAREN] (re_sub match_parens [] cs)"
      using 2 None by blast
    have "c = LPAREN \<Longrightarrow> RPAREN \<notin> set (re_sub match_parens [] cs)"
    proof
      assume c: "c = LPAREN" and "RPAREN \<in> set (re_sub match_parens [] cs)"
      then have "RPAREN \<in> set cs"
        using re_sub_delete_subseq [of match_parens cs] by (simp add: subseq_set)
      then show False using match_parens_fires [of cs] None c by simp
    qed
    then show ?thesis using None ih by (simp add: subseq_pair_Cons del: subseq_Cons2_iff)
  next
    case (Some k)
    then obtain n where k: "k = Suc n" using match_parens_pos [of "c # cs"] by (cases k) auto
    have "\<not> subseq [LPAREN, RPAREN] (re_sub match_parens [] (drop n cs))"
      using 2 Some k by blast
    then show ?thesis using Some k by simp
  qed
qed

lemma re_sub_parens_fixed:
  "\<not> subseq [LPAREN, RPAREN] t \<Longrightarrow> re_sub match_parens r t = t"
proof (induction t)
  case Nil
  then show ?case by simp
next
  case (Cons c cs)
  have "subseq [LPAREN, RPAREN] cs \<Longrightarrow> subseq [LPAREN, RPAREN] ([c] @ cs)"
    by (rule subseq_drop_many)
  then have "\<not> subseq [LPAREN, RPAREN] cs" using Cons.prems by auto
  then have ih: "re_sub match_parens r cs = cs" by (rule Cons.IH)
  have "c = LPAREN \<Longrightarrow> RPAREN \<notin> set cs"
    using Cons.prems by (simp add: subseq_pair_Cons del: subseq_Cons2_iff)
  then have "c = LPAREN \<Longrightarrow> span (\<lambda>x. x \<noteq> RPAREN) cs = length cs"
    using span_all [of cs "\<lambda>x. x \<noteq> RPAREN"] by blast
  then have "match_parens (c # cs) = None"
    by (auto simp: match_parens_def)
  then show ?case using ih by simp
qed


lemma match_spaces_Cons:
  "match_spaces (c # cs) = (if isspace c then Some (Suc (span isspace cs)) else None)"
  by (simp add: match_spaces_def span_def)

lemma collapse_Cons:
  "re_sub match_spaces [32] (c # cs) =
     (if isspace c then 32 # re_sub match_spaces [32] (dropWhile isspace cs)
      else c # re_sub match_spaces [32] cs)"
  by (simp add: match_spaces_Cons span_def dropWhile_eq_drop)

lemma single_spaced_Cons:
  "single_spaced (c # v) \<longleftrightarrow>
     (isspace c \<longrightarrow> c = 32 \<and> (v = [] \<or> \<not> isspace (hd v))) \<and> single_spaced v"
  by (cases v) auto

lemma collapse_single_spaced:
  "single_spaced (re_sub match_spaces [32] s)
   \<and> (s = [] \<or> \<not> isspace (hd s) \<longrightarrow>
        re_sub match_spaces [32] s = [] \<or> \<not> isspace (hd (re_sub match_spaces [32] s)))"
proof (induction "length s" arbitrary: s rule: less_induct)
  case less
  show ?case
  proof (cases s)
    case Nil
    then show ?thesis by simp
  next
    case (Cons c cs)
    show ?thesis
    proof (cases "isspace c")
      case True
      let ?r = "dropWhile isspace cs"
      have "length ?r < length s" using Cons by (simp add: length_dropWhile_le le_imp_less_Suc)
      then have ih: "single_spaced (re_sub match_spaces [32] ?r)
          \<and> (?r = [] \<or> \<not> isspace (hd ?r) \<longrightarrow> re_sub match_spaces [32] ?r = []
               \<or> \<not> isspace (hd (re_sub match_spaces [32] ?r)))"
        by (rule less)
      have "?r = [] \<or> \<not> isspace (hd ?r)" using hd_dropWhile [of isspace cs] by blast
      then show ?thesis using ih Cons True
        by (simp add: collapse_Cons single_spaced_Cons del: re_sub.simps)
    next
      case False
      have "length cs < length s" using Cons by simp
      then have "single_spaced (re_sub match_spaces [32] cs)
          \<and> (cs = [] \<or> \<not> isspace (hd cs) \<longrightarrow> re_sub match_spaces [32] cs = []
               \<or> \<not> isspace (hd (re_sub match_spaces [32] cs)))"
        by (rule less)
      then show ?thesis using Cons False
        by (simp add: collapse_Cons single_spaced_Cons del: re_sub.simps)
    qed
  qed
qed

lemma collapse_fixed: "single_spaced t \<Longrightarrow> re_sub match_spaces [32] t = t"
proof (induction t)
  case Nil
  then show ?case by simp
next
  case (Cons c cs)
  then have ih: "re_sub match_spaces [32] cs = cs" by (simp add: single_spaced_Cons)
  have "isspace c \<Longrightarrow> c = 32 \<and> dropWhile isspace cs = cs"
    using Cons.prems by (auto simp: single_spaced_Cons dropWhile_eq_self_iff)
  then show ?case using ih by (auto simp: collapse_Cons simp del: re_sub.simps)
qed

lemma single_spaced_drop: "single_spaced v \<Longrightarrow> single_spaced (drop k v)"
proof (induction k arbitrary: v)
  case 0
  then show ?case by simp
next
  case (Suc k)
  then show ?case by (cases v) (simp_all add: single_spaced_Cons)
qed

lemma single_spaced_take: "single_spaced v \<Longrightarrow> single_spaced (take n v)"
proof (induction v arbitrary: n)
  case Nil
  then show ?case by simp
next
  case (Cons c cs)
  show ?case
  proof (cases n)
    case 0
    then show ?thesis by simp
  next
    case (Suc k)
    have "single_spaced (take k cs)" using Cons by (simp add: single_spaced_Cons)
    moreover have "take k cs \<noteq> [] \<Longrightarrow> hd (take k cs) = hd cs" by (cases k; cases cs) simp_all
    moreover have "take k cs \<noteq> [] \<Longrightarrow> cs \<noteq> []" by auto
    ultimately show ?thesis using Cons.prems Suc by (auto simp: single_spaced_Cons)
  qed
qed

lemma strip_slice: "\<exists>n k. strip s = take n (drop k s)"
proof -
  let ?a = "dropWhile isspace s"
  have "rev (dropWhile isspace (rev ?a)) = take (length ?a - length (takeWhile isspace (rev ?a))) ?a"
    by (simp add: dropWhile_eq_drop [of isspace "rev ?a"] rev_drop)
  moreover have "?a = drop (length (takeWhile isspace s)) s" by (rule dropWhile_eq_drop)
  ultimately show ?thesis unfolding strip_def by metis
qed

lemma strip_single_spaced: "single_spaced v \<Longrightarrow> single_spaced (strip v)"
  using strip_slice [of v] by (auto simp: single_spaced_take single_spaced_drop)

lemma strip_subseq: "subseq (strip v) v"
proof -
  obtain n k where "strip v = take n (drop k v)" using strip_slice by blast
  then show ?thesis
    using subseq_take [of n "drop k v"] subseq_drop [of k v] subseq_order.order_trans by metis
qed

lemma strip_ends:
  "strip s = [] \<or> (\<not> isspace (hd (strip s)) \<and> \<not> isspace (last (strip s)))"
proof -
  define a where "a = dropWhile isspace s"
  define b where "b = dropWhile isspace (rev a)"
  have st: "strip s = rev b" by (simp add: strip_def a_def b_def)
  show ?thesis
  proof (cases "b = []")
    case True
    then show ?thesis by (simp add: st)
  next
    case False
    have hb: "\<not> isspace (hd b)" using False unfolding b_def by (rule hd_dropWhile)
    have an: "a \<noteq> []"
    proof
      assume "a = []"
      then have "b = []" by (simp add: b_def)
      with False show False by simp
    qed
    have ha: "\<not> isspace (hd a)" using an unfolding a_def by (rule hd_dropWhile)
    have "rev a = takeWhile isspace (rev a) @ b" by (simp add: b_def)
    then have "last (rev a) = last b" using False by (metis last_appendR)
    then have "last b = hd a" using an by (simp add: last_rev)
    then show ?thesis using False ha hb by (simp add: st hd_rev last_rev)
  qed
qed

lemma strip_fixed:
  assumes "t = [] \<or> (\<not> isspace (hd t) \<and> \<not> isspace (last t))"
  shows "strip t = t"
proof (cases "t = []")
  case True
  then show ?thesis by (simp add: strip_def)
next
  case False
  then have a: "dropWhile isspace t = t" using assms by (simp add: dropWhile_eq_self_iff)
  have "dropWhile isspace (rev t) = rev t"
    using assms False by (simp add: dropWhile_eq_self_iff hd_rev)
  then show ?thesis using a by (simp add: strip_def)
qed

lemma strip_idem: "strip (strip s) = strip s"
  by (rule strip_fixed) (rule strip_ends)


lemma re_sub_no_match:
  assumes "\<not> has_match m s"
  shows "re_sub m r s = s"
proof -
  have "(\<And>k. k < length s \<Longrightarrow> m (drop k s) = None) \<Longrightarrow> re_sub m r s = s"
  proof (induction s)
    case Nil
    then show ?case by simp
  next
    case (Cons c cs)
    have a: "m (c # cs) = None" using Cons.prems [of 0] by simp
    have b: "re_sub m r cs = cs"
    proof (rule Cons.IH)
      fix k assume "k < length cs"
      then show "m (drop k cs) = None" using Cons.prems [of "Suc k"] by simp
    qed
    show ?case using a b by simp
  qed
  moreover have "\<And>k. k < length s \<Longrightarrow> m (drop k s) = None"
    using assms by (auto simp: has_match_def list_ex_iff)
  ultimately show ?thesis by blast
qed

lemma isspace_32: "isspace 32"
  by (simp add: isspace_def)

lemma parens_not_space: "\<not> isspace LPAREN" "\<not> isspace RPAREN"
  by (simp_all add: isspace_def LPAREN_def RPAREN_def)

lemma filter_dropWhile_not: "filter (\<lambda>x. \<not> p x) (dropWhile p xs) = filter (\<lambda>x. \<not> p x) xs"
  by (induction xs) auto

lemma collapse_filter:
  "filter (\<lambda>x. \<not> isspace x) (re_sub match_spaces [32] s) = filter (\<lambda>x. \<not> isspace x) s"
proof (induction "length s" arbitrary: s rule: less_induct)
  case less
  show ?case
  proof (cases s)
    case Nil
    then show ?thesis by simp
  next
    case (Cons c cs)
    show ?thesis
    proof (cases "isspace c")
      case True
      have "length (dropWhile isspace cs) < length s"
        using Cons by (simp add: length_dropWhile_le le_imp_less_Suc)
      then have "filter (\<lambda>x. \<not> isspace x) (re_sub match_spaces [32] (dropWhile isspace cs))
          = filter (\<lambda>x. \<not> isspace x) (dropWhile isspace cs)"
        by (rule less)
      then show ?thesis using Cons True
        by (simp add: collapse_Cons isspace_32 filter_dropWhile_not del: re_sub.simps)
    next
      case False
      have "length cs < length s" using Cons by simp
      then have "filter (\<lambda>x. \<not> isspace x) (re_sub match_spaces [32] cs)
          = filter (\<lambda>x. \<not> isspace x) cs"
        by (rule less)
      then show ?thesis using Cons False by (simp add: collapse_Cons del: re_sub.simps)
    qed
  qed
qed

lemma collapse_no_pair:
  assumes "\<not> subseq [LPAREN, RPAREN] u"
  shows "\<not> subseq [LPAREN, RPAREN] (re_sub match_spaces [32] u)"
proof
  assume "subseq [LPAREN, RPAREN] (re_sub match_spaces [32] u)"
  then have "subseq (filter (\<lambda>x. \<not> isspace x) [LPAREN, RPAREN])
               (filter (\<lambda>x. \<not> isspace x) (re_sub match_spaces [32] u))"
    by (rule subseq_filter)
  then have "subseq [LPAREN, RPAREN] (filter (\<lambda>x. \<not> isspace x) u)"
    by (simp add: collapse_filter parens_not_space)
  moreover have "subseq (filter (\<lambda>x. \<not> isspace x) u) u" by (rule subseq_filter_left)
  ultimately have "subseq [LPAREN, RPAREN] u" by (rule subseq_order.order_trans)
  with assms show False by simp
qed

lemma sample_spaces:
  "isspace 32" "\<not> isspace 48" "\<not> isspace 49" "\<not> isspace 50" "\<not> isspace 53" "\<not> isspace 52789" "\<not> isspace 54840" "\<not> isspace 49436" "\<not> isspace 50872" "\<not> isspace 53945" "\<not> isspace 48324" "\<not> isspace 49884" "\<not> isspace 44053" "\<not> isspace 45224" "\<not> isspace 44396" "\<not> isspace 53580" "\<not> isspace 54756" "\<not> isspace 46976" "\<not> isspace 47196"
  by (simp_all add: isspace_def)

lemma sample_decimals:
  "\<not> isdecimal 32" "isdecimal 48" "isdecimal 49" "isdecimal 50" "isdecimal 53" "\<not> isdecimal 52789" "\<not> isdecimal 54840" "\<not> isdecimal 49436" "\<not> isdecimal 50872" "\<not> isdecimal 53945" "\<not> isdecimal 48324" "\<not> isdecimal 49884" "\<not> isdecimal 44053" "\<not> isdecimal 45224" "\<not> isdecimal 44396" "\<not> isdecimal 53580" "\<not> isdecimal 54756" "\<not> isdecimal 46976" "\<not> isdecimal 47196"
  by (simp_all add: isdecimal_def decimal_ranges_def)

lemmas eval_simps = clean_address_for_search_def strip_def sample_spaces sample_decimals
     match_parens_def match_basement_def match_floor_def match_unit_def match_spaces_def span_def optional_def
     LPAREN_def RPAREN_def JI_def HA_def CHEUNG_def HO_def Let_def

lemma unit_twice_cleaned: "clean_address_for_search unit_twice = [49, 32, 54840]"
  by (simp add: eval_simps unit_twice_def)

lemma unit_twice_cleaned_again: "clean_address_for_search [49, 32, 54840] = []"
  by (simp add: eval_simps)


lemma teheran_ro_cleaned: "clean_address_for_search teheran_ro_152_full = teheran_ro_152"
  by (simp add: eval_simps teheran_ro_152_full_def teheran_ro_152_def)

lemma teheran_ro_no_basement: "\<not> has_match match_basement teheran_ro_152"
  by (simp add: has_match_def eval_simps teheran_ro_152_def)

lemma teheran_ro_no_floor: "\<not> has_match match_floor teheran_ro_152"
  by (simp add: has_match_def eval_simps teheran_ro_152_def)

lemma teheran_ro_no_unit: "\<not> has_match match_unit teheran_ro_152"
  by (simp add: has_match_def eval_simps teheran_ro_152_def)

text \<open>
  C8, as the code has it. Cleaning a cleaned address gives the same text whenever the
  cleaned address has no basement, floor or unit expression left in it (none of the three
  digit patterns matches anywhere): brackets, whitespace and the ends are then stable.
\<close>

theorem clean_address_idempotent_when_nothing_left:
  assumes "\<not> has_match match_basement (clean_address_for_search s)"
    and "\<not> has_match match_floor (clean_address_for_search s)"
    and "\<not> has_match match_unit (clean_address_for_search s)"
  shows "clean_address_for_search (clean_address_for_search s) = clean_address_for_search s"
proof (cases "s = [] \<or> strip s = []")
  case True
  then show ?thesis by (simp add: clean_address_for_search_def)
next
  case False
  define u1 where "u1 = re_sub match_parens [] (strip s)"
  define u2 where "u2 = re_sub match_basement [] u1"
  define u3 where "u3 = re_sub match_floor [] u2"
  define u4 where "u4 = re_sub match_unit [] u3"
  define u5 where "u5 = re_sub match_spaces [32] u4"
  define t where "t = strip u5"
  have t: "clean_address_for_search s = t"
    using False by (simp add: clean_address_for_search_def Let_def u1_def u2_def u3_def u4_def
        u5_def t_def)
  have p1: "\<not> subseq [LPAREN, RPAREN] u1" unfolding u1_def by (rule re_sub_parens_no_pair)
  have "subseq u4 u1"
    using re_sub_delete_subseq [of match_basement u1] re_sub_delete_subseq [of match_floor u2]
      re_sub_delete_subseq [of match_unit u3]
    unfolding u2_def [symmetric] u3_def [symmetric] u4_def [symmetric]
    by (meson subseq_order.order_trans)
  then have p4: "\<not> subseq [LPAREN, RPAREN] u4"
    using p1 subseq_order.order_trans by blast
  have p5: "\<not> subseq [LPAREN, RPAREN] u5" unfolding u5_def using p4 by (rule collapse_no_pair)
  have pt: "\<not> subseq [LPAREN, RPAREN] t"
    using p5 strip_subseq [of u5] subseq_order.order_trans unfolding t_def by blast
  have st: "single_spaced t"
    unfolding t_def u5_def by (rule strip_single_spaced) (simp add: collapse_single_spaced)
  have s1: "strip t = t" unfolding t_def by (rule strip_idem)
  have s2: "re_sub match_parens [] t = t" using pt by (rule re_sub_parens_fixed)
  have s3: "re_sub match_basement [] t = t" using assms(1) t by (simp add: re_sub_no_match)
  have s4: "re_sub match_floor [] t = t" using assms(2) t by (simp add: re_sub_no_match)
  have s5: "re_sub match_unit [] t = t" using assms(3) t by (simp add: re_sub_no_match)
  have s6: "re_sub match_spaces [32] t = t" using st by (rule collapse_fixed)
  have "clean_address_for_search t = t"
    by (simp add: clean_address_for_search_def Let_def s1 s2 s3 s4 s5 s6)
  then show ?thesis by (simp add: t)
qed

theorem clean_address_idempotent_when_nothing_left_witness:
  "\<not> has_match match_basement (clean_address_for_search teheran_ro_152_full)
   \<and> \<not> has_match match_floor (clean_address_for_search teheran_ro_152_full)
   \<and> \<not> has_match match_unit (clean_address_for_search teheran_ro_152_full)
   \<and> clean_address_for_search teheran_ro_152_full = teheran_ro_152
   \<and> clean_address_for_search (clean_address_for_search teheran_ro_152_full) = teheran_ro_152"
  using clean_address_idempotent_when_nothing_left [of teheran_ro_152_full]
  by (simp add: teheran_ro_cleaned teheran_ro_no_basement teheran_ro_no_floor
      teheran_ro_no_unit)

text \<open>
  The claim as stated fails: in "1 2" followed by two unit signs, the first pass deletes
  the unit number "2" with its sign, which brings "1" and the second unit sign together,
  and the second pass deletes them.
\<close>

theorem clean_address_not_idempotent:
  "clean_address_for_search unit_twice = [49, 32, 54840]
   \<and> clean_address_for_search (clean_address_for_search unit_twice) = []"
  by (simp add: unit_twice_cleaned unit_twice_cleaned_again)

subsection \<open>The location matcher\<close>

text \<open>
  C10. For the place type \<^verbatim>\<open>'company'\<close>, the daytime filter runs only when the chunk
  has a \<^verbatim>\<open>time_type\<close> column. Without the column, the locations sent to the search
  are those of all rows with both coordinates; with it, they are those of the rows whose
  \<^verbatim>\<open>time_type\<close> is \<^verbatim>\<open>'DAY'\<close> (and that have both coordinates).
\<close>

theorem daytime_filter_only_with_column:
  "(''time_type'' \<notin> set cols \<longrightarrow>
      chunk_locations ''company'' cols user_chunk
        = map location_of (filter has_coordinates user_chunk))
   \<and> (''time_type'' \<in> set cols \<longrightarrow>
      chunk_locations ''company'' cols user_chunk
        = map location_of (filter has_coordinates (filter is_daytime user_chunk))
      \<and> set (preprocess_chunk ''company'' cols user_chunk)
        = {r \<in> set user_chunk. u_time_type r = Some ''DAY'' \<and> u_lat r \<noteq> None \<and> u_lon r \<noteq> None})"
  by (auto simp: chunk_locations_def preprocess_chunk_def is_daytime_def has_coordinates_def)

theorem daytime_filter_only_with_column_witness:
  "chunk_locations ''company'' [''adid'', ''lat'', ''lon''] sample_rows
     = [(1, 10, ''a''), (1, 20, ''b''), (2, 40, ''d''), (1, 50, ''e'')]
   \<and> chunk_locations ''company'' [''adid'', ''lat'', ''lon'', ''time_type''] sample_rows
     = [(1, 10, ''a''), (2, 40, ''d'')]"
  using daytime_filter_only_with_column [of "[''adid'', ''lat'', ''lon'']" sample_rows]
    daytime_filter_only_with_column [of "[''adid'', ''lat'', ''lon'', ''time_type'']" sample_rows]
  by (simp add: sample_rows_def location_of_def has_coordinates_def is_daytime_def)

lemma sync_msearch_loop_all_fail:
  "(\<And>k. attempt \<le> k \<Longrightarrow> k < retries \<Longrightarrow> attempt_fails (post k)) \<Longrightarrow>
   sync_msearch_loop retries post attempt = None"
proof (induction "retries - attempt" arbitrary: attempt)
  case 0
  then show ?case by (subst sync_msearch_loop.simps) simp
next
  case (Suc n)
  then have lt: "attempt < retries" by simp
  have f: "attempt_fails (post attempt)" using Suc.prems lt by simp
  have ih: "sync_msearch_loop retries post (Suc attempt) = None"
  proof (rule Suc.hyps(1))
    show "n = retries - Suc attempt" using Suc.hyps(2) by simp
  next
    fix k assume "Suc attempt \<le> k" "k < retries"
    then show "attempt_fails (post k)" using Suc.prems by simp
  qed
  show ?case using lt f ih
    by (subst sync_msearch_loop.simps)
       (auto simp: attempt_fails_def split: http.splits json_body.splits)
qed

lemma sync_msearch_loop_skip:
  "attempt_fails (post attempt) \<Longrightarrow> Suc attempt < retries \<Longrightarrow>
   sync_msearch_loop retries post attempt = sync_msearch_loop retries post (Suc attempt)"
  by (subst sync_msearch_loop.simps)
     (auto simp: attempt_fails_def split: http.splits json_body.splits)

lemma sync_msearch_loop_hit:
  "attempt < retries \<Longrightarrow> post attempt = Response 200 (Object x) \<Longrightarrow>
   sync_msearch_loop retries post attempt = Some (Object x)"
  by (subst sync_msearch_loop.simps) simp

lemma sync_msearch_loop_first_success:
  "attempt \<le> k \<Longrightarrow> k < retries \<Longrightarrow>
   (\<And>j. attempt \<le> j \<Longrightarrow> j < k \<Longrightarrow> attempt_fails (post j)) \<Longrightarrow>
   post k = Response 200 (Object x) \<Longrightarrow>
   sync_msearch_loop retries post attempt = Some (Object x)"
proof (induction "k - attempt" arbitrary: attempt)
  case 0
  then have "attempt = k" by simp
  then show ?case using 0 by (simp add: sync_msearch_loop_hit)
next
  case (Suc n)
  then have lt: "attempt < k" by simp
  have "sync_msearch_loop retries post (Suc attempt) = Some (Object x)"
  proof (rule Suc.hyps(1))
    show "n = k - Suc attempt" using Suc.hyps(2) by simp
    show "Suc attempt \<le> k" using lt by simp
    show "k < retries" by (rule Suc.prems(2))
    show "attempt_fails (post j)" if "Suc attempt \<le> j" "j < k" for j
      using that Suc.prems(3) by simp
    show "post k = Response 200 (Object x)" by (rule Suc.prems(4))
  qed
  moreover have "attempt_fails (post attempt)" using Suc.prems(3) lt by simp
  moreover have "Suc attempt < retries" using lt Suc.prems(2) by simp
  ultimately show ?case by (simp add: sync_msearch_loop_skip)
qed


lemma sync_msearch_all_fail:
  "(\<forall>k < max_retries self. attempt_fails (es body k)) \<Longrightarrow> sync_msearch self es body = None"
  by (simp add: sync_msearch_def sync_msearch_loop_all_fail)

lemma sync_msearch_first_success:
  "k < max_retries self \<Longrightarrow> (\<forall>j < k. attempt_fails (es body j)) \<Longrightarrow>
   es body k = Response 200 (Object x) \<Longrightarrow> sync_msearch self es body = Some (Object x)"
  unfolding sync_msearch_def
  by (rule sync_msearch_loop_first_success [where k = k]) simp_all

lemma collect_results_expected:
  "length responses \<le> length rest \<Longrightarrow> (\<forall>r\<in>set responses. well_formed r) \<Longrightarrow>
   collect_results place_type (pre @ rest) (length pre) responses
     = Inr (concat (map2 (expected_rows place_type) rest responses))"
proof (induction responses arbitrary: pre rest)
  case Nil
  then show ?case by simp
next
  case (Cons resp rs)
  then obtain loc rest' where rest: "rest = loc # rest'" by (cases rest) auto
  have "collect_results place_type ((pre @ [loc]) @ rest') (length (pre @ [loc])) rs
          = Inr (concat (map2 (expected_rows place_type) rest' rs))"
    by (rule Cons.IH) (use Cons.prems rest in auto)
  then have ih: "collect_results place_type (pre @ loc # rest') (Suc (length pre)) rs
          = Inr (concat (map2 (expected_rows place_type) rest' rs))"
    by simp
  have wf: "well_formed resp" using Cons.prems by simp
  show ?case
  proof (cases resp)
    case SubError
    then show ?thesis using ih rest by (simp add: expected_rows_def)
  next
    case (SubHits total_value hits)
    show ?thesis
    proof (cases "total_value = 0")
      case True
      then show ?thesis using ih rest SubHits by (simp add: expected_rows_def)
    next
      case False
      then obtain h hs where hits: "hits = h # hs" using wf SubHits
        by (cases hits) (auto simp: well_formed_def)
      then obtain d ds where d: "sort_values h = d # ds" using wf SubHits False
        by (cases "sort_values h") (auto simp: well_formed_def)
      show ?thesis using ih rest SubHits False hits d by (simp add: expected_rows_def)
    qed
  qed
qed

lemma process_batch_responses:
  assumes "sync_msearch self es (map (make_query place_type) batch) = Some (Object (Some responses))"
    and "length responses \<le> length batch" and "\<forall>r\<in>set responses. well_formed r"
  shows "process_batch self es (batch_idx, batch, place_type)
           = Inr (concat (map2 (expected_rows place_type) batch responses))"
  using assms
    collect_results_expected [where pre = "[]" and rest = batch and responses = responses
      and place_type = place_type]
  by (simp add: process_batch_def)

text \<open>
  C2. When every one of the \<open>max_retries\<close> attempts fails, or the first reply that does not
  fail has no \<^verbatim>\<open>'responses'\<close>, \<^verbatim>\<open>process_batch\<close> returns the empty list. When the reply
  has responses (at most one per row, those with hits carrying the nearest hit and its
  distance), the result is, row by row: nothing for a sub-response with an error or with zero
  hits, and one row for a sub-response with hits, for that device and with the first sort
  value of the first hit as distance.
\<close>

theorem process_batch_failures_and_hits:
  "((\<forall>k < max_retries self. attempt_fails (es (map (make_query place_type) batch) k)) \<longrightarrow>
      process_batch self es (batch_idx, batch, place_type) = Inr [])
   \<and> ((\<exists>k < max_retries self. (\<forall>j < k. attempt_fails (es (map (make_query place_type) batch) j))
          \<and> es (map (make_query place_type) batch) k = Response 200 (Object None)) \<longrightarrow>
      process_batch self es (batch_idx, batch, place_type) = Inr [])
   \<and> (\<forall>responses.
        (\<exists>k < max_retries self. (\<forall>j < k. attempt_fails (es (map (make_query place_type) batch) j))
          \<and> es (map (make_query place_type) batch) k = Response 200 (Object (Some responses)))
        \<and> length responses \<le> length batch \<and> (\<forall>r\<in>set responses. well_formed r) \<longrightarrow>
      process_batch self es (batch_idx, batch, place_type)
        = Inr (concat (map2 (expected_rows place_type) batch responses)))
   \<and> expected_rows place_type loc SubError = []
   \<and> expected_rows place_type loc (SubHits 0 hits) = []
   \<and> (total_value \<noteq> 0 \<longrightarrow>
        (\<exists>row. expected_rows place_type loc (SubHits total_value (h # hits)) = [row]
           \<and> row_distance row = hd (sort_values h) \<and> row_adid row = snd (snd loc)))"
proof -
  let ?body = "map (make_query place_type) batch"
  have a: "(\<forall>k < max_retries self. attempt_fails (es ?body k)) \<longrightarrow>
      process_batch self es (batch_idx, batch, place_type) = Inr []"
    by (simp add: process_batch_def sync_msearch_all_fail)
  have b: "(\<exists>k < max_retries self. (\<forall>j < k. attempt_fails (es ?body j))
          \<and> es ?body k = Response 200 (Object None)) \<longrightarrow>
      process_batch self es (batch_idx, batch, place_type) = Inr []"
    using sync_msearch_first_success [where self = self and es = es and body = ?body and x = None]
    by (auto simp: process_batch_def)
  have c: "\<forall>responses.
        (\<exists>k < max_retries self. (\<forall>j < k. attempt_fails (es ?body j))
          \<and> es ?body k = Response 200 (Object (Some responses)))
        \<and> length responses \<le> length batch \<and> (\<forall>r\<in>set responses. well_formed r) \<longrightarrow>
      process_batch self es (batch_idx, batch, place_type)
        = Inr (concat (map2 (expected_rows place_type) batch responses))"
    using sync_msearch_first_success [where self = self and es = es and body = ?body]
      process_batch_responses [where self = self and es = es
        and place_type = place_type and batch = batch and batch_idx = batch_idx]
    by blast
  have d: "expected_rows place_type loc SubError = []"
    "expected_rows place_type loc (SubHits 0 hits) = []"
    by (simp_all add: expected_rows_def)
  have e: "total_value \<noteq> 0 \<longrightarrow>
        (\<exists>row. expected_rows place_type loc (SubHits total_value (h # hits)) = [row]
           \<and> row_distance row = hd (sort_values h) \<and> row_adid row = snd (snd loc))"
    by (cases loc) (simp add: expected_rows_def make_result_def)
  show ?thesis by (intro conjI a b c d e)
qed

theorem process_batch_failures_and_hits_witness:
  "process_batch small_settings (\<lambda>body attempt. RequestFailed)
     (0, [(1, 10, ''a''), (2, 40, ''d'')], ''high_school'') = Inr ([] :: int match_row list)
   \<and> process_batch small_settings (\<lambda>body attempt. Response 200 (Object None))
       (0, [(1, 10, ''a''), (2, 40, ''d'')], ''high_school'') = Inr ([] :: int match_row list)
   \<and> process_batch small_settings sample_backend
       (0, [(1, 10, ''a''), (2, 40, ''d'')], ''high_school'')
     = Inr [\<lparr> row_adid = ''a'', row_lat = 1, row_lon = 10, row_distance = 120,
              row_codes = [(''fac_cd'', Some ''F1''), (''ctp_cd'', Some ''4600000000''),
                           (''sig_cd'', None), (''emd_cd'', None)] \<rparr>]
   \<and> (\<exists>row. expected_rows ''high_school'' (1 :: int, 10, ''a'') (SubHits 1 [sample_hit]) = [row]
         \<and> row_distance row = 120 \<and> row_adid row = ''a'')"
proof -
  let ?batch = "[(1, 10, ''a''), (2, 40, ''d'')] :: int location list"
  let ?body = "map (make_query ''high_school'') ?batch"
  have f1: "\<forall>k < max_retries small_settings.
      attempt_fails ((\<lambda>body attempt. RequestFailed :: int es_reply) ?body k)"
    by (simp add: attempt_fails_def)
  have f2: "\<exists>k < max_retries small_settings.
      (\<forall>j < k. attempt_fails ((\<lambda>body attempt. Response 200 (Object None) :: int es_reply) ?body j))
      \<and> (\<lambda>body attempt. Response 200 (Object None) :: int es_reply) ?body k
          = Response 200 (Object None)"
    by (rule exI [of _ 0]) (simp add: small_settings_def)
  have f3: "\<exists>k < max_retries small_settings.
      (\<forall>j < k. attempt_fails (sample_backend ?body j))
      \<and> sample_backend ?body k = Response 200 (Object (Some (map sample_answer ?body)))"
    by (rule exI [of _ 1]) (simp add: small_settings_def sample_backend_def attempt_fails_def)
  have f4: "length (map sample_answer ?body) \<le> length ?batch
      \<and> (\<forall>r\<in>set (map sample_answer ?body). well_formed r)"
    by (simp add: sample_answer_def well_formed_def make_query_def sample_hit_def)
  have r: "concat (map2 (expected_rows ''high_school'') ?batch (map sample_answer ?body))
      = [\<lparr> row_adid = ''a'', row_lat = 1, row_lon = 10, row_distance = 120,
              row_codes = [(''fac_cd'', Some ''F1''), (''ctp_cd'', Some ''4600000000''),
                           (''sig_cd'', None), (''emd_cd'', None)] \<rparr>]"
    by (simp add: sample_answer_def make_query_def expected_rows_def make_result_def
        sample_hit_def code_columns_def)
  have s: "hd (sort_values sample_hit) = 120" by (simp add: sample_hit_def)
  have t1: "process_batch small_settings (\<lambda>body attempt. RequestFailed)
     (0, ?batch, ''high_school'') = Inr ([] :: int match_row list)"
    using f1 process_batch_failures_and_hits [of small_settings
        "\<lambda>body attempt. RequestFailed" "''high_school''" ?batch 0]
    by blast
  have t2: "process_batch small_settings (\<lambda>body attempt. Response 200 (Object None))
       (0, ?batch, ''high_school'') = Inr ([] :: int match_row list)"
    using f2 process_batch_failures_and_hits [of small_settings
        "\<lambda>body attempt. Response 200 (Object None)" "''high_school''" ?batch 0]
    by blast
  have t3: "process_batch small_settings sample_backend (0, ?batch, ''high_school'')
      = Inr (concat (map2 (expected_rows ''high_school'') ?batch (map sample_answer ?body)))"
    using f3 f4 process_batch_failures_and_hits [of small_settings
        sample_backend "''high_school''" ?batch 0]
    by blast
  have t4: "\<exists>row. expected_rows ''high_school'' (1 :: int, 10, ''a'') (SubHits 1 [sample_hit]) = [row]
         \<and> row_distance row = 120 \<and> row_adid row = ''a''"
    using process_batch_failures_and_hits [of small_settings sample_backend "''high_school''"
        ?batch 0 "(1, 10, ''a'')" "[]" 1 sample_hit] s
    by simp
  show ?thesis using t1 t2 t3 t4 r by simp
qed

lemma make_batches_concat:
  "0 < n \<Longrightarrow> concat (map (\<lambda>bd. fst (snd bd)) (make_batches n place_type i locs)) = locs"
proof (induction n place_type i locs rule: make_batches.induct)
  case (1 n place_type i locs)
  show ?case
  proof (cases "locs = []")
    case True
    then show ?thesis by (subst make_batches.simps) simp
  next
    case False
    then have "concat (map (\<lambda>bd. fst (snd bd))
                 (make_batches n place_type (i + n) (drop n locs))) = drop n locs"
      using 1 by simp
    then show ?thesis using False "1.prems" by (subst make_batches.simps) simp
  qed
qed

lemma make_batches_place_type:
  "bd \<in> set (make_batches n place_type i locs) \<Longrightarrow> snd (snd bd) = place_type"
proof (induction n place_type i locs rule: make_batches.induct)
  case (1 n place_type i locs)
  show ?case
  proof (cases "n = 0 \<or> locs = []")
    case True
    then show ?thesis using "1.prems" by (subst (asm) make_batches.simps) simp
  next
    case False
    have "bd = (i, take n locs, place_type)
          \<or> bd \<in> set (make_batches n place_type (i + n) (drop n locs))"
      using "1.prems" False by (subst (asm) make_batches.simps) simp
    then show ?thesis using 1 False by auto
  qed
qed

lemma read_csv_chunks_concat: "0 < n \<Longrightarrow> concat (read_csv_chunks n rows) = rows"
proof (induction n rows rule: read_csv_chunks.induct)
  case (1 n rows)
  show ?case
  proof (cases "rows = []")
    case True
    then show ?thesis by (subst read_csv_chunks.simps) simp
  next
    case False
    then have "concat (read_csv_chunks n (drop n rows)) = drop n rows" using 1 by simp
    then show ?thesis using False "1.prems" by (subst read_csv_chunks.simps) simp
  qed
qed

lemma map2_same: "map2 g xs (map h xs) = map (\<lambda>x. g x (h x)) xs"
  by (induction xs) simp_all

lemma gather_all_ok:
  "(\<And>x. x \<in> set xs \<Longrightarrow> p x = Inr (g x)) \<Longrightarrow> gather (map p xs) = Inr (concat (map g xs))"
  by (induction xs) simp_all

lemma mset_concat_permute:
  "mset xs = mset ys \<Longrightarrow> mset (concat (map h xs)) = mset (concat (map h ys))"
proof -
  assume eq: "mset xs = mset ys"
  have "mset (concat (map h zs)) = (\<Sum>x\<in>#mset zs. mset (h x))" for zs
    by (induction zs) simp_all
  then show ?thesis using eq by simp
qed


lemma process_batch_each:
  assumes "answers_each_query self es answer" and "\<forall>q. well_formed (answer q)"
  shows "process_batch self es (i, batch, place_type)
           = Inr (concat (map (matches_of place_type answer) batch))"
proof -
  let ?body = "map (make_query place_type) batch"
  obtain k where k: "k < max_retries self" "\<forall>j < k. attempt_fails (es ?body j)"
      "es ?body k = Response 200 (Object (Some (map answer ?body)))"
    using assms(1) unfolding answers_each_query_def by blast
  have "sync_msearch self es ?body = Some (Object (Some (map answer ?body)))"
    using k by (rule sync_msearch_first_success)
  moreover have "\<forall>r\<in>set (map answer ?body). well_formed r" using assms(2) by simp
  ultimately have "process_batch self es (i, batch, place_type)
      = Inr (concat (map2 (expected_rows place_type) batch (map answer ?body)))"
    by (intro process_batch_responses) simp_all
  moreover have "map2 (expected_rows place_type) batch (map answer ?body)
      = map (matches_of place_type answer) batch"
    using map2_same [of "expected_rows place_type" batch "\<lambda>loc. answer (make_query place_type loc)"]
    by (simp add: matches_of_def comp_def)
  ultimately show ?thesis by simp
qed

lemma batch_find_rows:
  assumes "0 < batch_size self" and "answers_each_query self es answer"
    and "\<forall>q. well_formed (answer q)" and "\<forall>bs. mset (as_completed bs) = mset bs"
  shows "\<exists>rs. batch_find_nearest_places_parallel self es as_completed place_type locs = Inr rs
           \<and> mset rs = mset (concat (map (matches_of place_type answer) locs))"
proof -
  define bs where "bs = make_batches (batch_size self) place_type 0 locs"
  define h where "h = (\<lambda>bd :: nat \<times> 'a location list \<times> string.
      concat (map (matches_of place_type answer) (fst (snd bd))))"
  have perm: "mset (as_completed bs) = mset bs" using assms(4) by simp
  have each: "process_batch self es bd = Inr (h bd)" if "bd \<in> set (as_completed bs)" for bd
  proof -
    have "bd \<in> set bs" using that perm by (metis set_mset_mset)
    then have pt: "snd (snd bd) = place_type" unfolding bs_def by (rule make_batches_place_type)
    obtain i b p where bd: "bd = (i, b, p)" by (cases bd) auto
    then show ?thesis using pt process_batch_each [OF assms(2) assms(3), of i b place_type]
      by (simp add: h_def)
  qed
  have "gather (map (process_batch self es) (as_completed bs))
          = Inr (concat (map h (as_completed bs)))"
    by (rule gather_all_ok) (rule each)
  then have run: "batch_find_nearest_places_parallel self es as_completed place_type locs
          = Inr (concat (map h (as_completed bs)))"
    using assms(1) by (simp add: batch_find_nearest_places_parallel_def bs_def)
  have "mset (concat (map h (as_completed bs))) = mset (concat (map h bs))"
    using perm by (rule mset_concat_permute)
  also have "concat (map h bs)
      = concat (map (matches_of place_type answer) (concat (map (\<lambda>bd. fst (snd bd)) bs)))"
    by (induction bs) (simp_all add: h_def)
  also have "concat (map (\<lambda>bd. fst (snd bd)) bs) = locs"
    unfolding bs_def using assms(1) by (rule make_batches_concat)
  finally show ?thesis using run by blast
qed

lemma headers_ok_append:
  "segs \<noteq> [] \<Longrightarrow> headers_ok segs \<Longrightarrow> headers_ok (segs @ [(False, rows)])"
  by (cases segs) (simp_all add: headers_ok_def)

lemma chunk_locations_concat:
  "concat (map (chunk_locations place_type cols) chunks)
     = chunk_locations place_type cols (concat chunks)"
  by (induction chunks) (simp_all add: chunk_locations_def preprocess_chunk_def)


lemma save_results_nonempty:
  "rows \<noteq> [] \<Longrightarrow> save_results rows ''w'' True file = [(True, rows)]"
  "rows \<noteq> [] \<Longrightarrow> save_results rows ''a'' False file = file @ [(False, rows)]"
  "save_results [] mode header file = file"
  by (simp_all add: save_results_def)

lemma chunk_loop_invariant:
  assumes "0 < batch_size self" and "0 < save_interval self"
    and "answers_each_query self es answer"
    and "\<forall>q. well_formed (answer q)" and "\<forall>bs. mset (as_completed bs) = mset bs"
  shows "(first_write st \<longrightarrow> output_file st = old) \<Longrightarrow>
     (\<not> first_write st \<longrightarrow> output_file st \<noteq> []) \<Longrightarrow>
     headers_ok (written_segments st) \<Longrightarrow>
     list_all (\<lambda>seg. save_interval self \<le> length (snd seg)) (written_segments st) \<Longrightarrow>
     \<exists>st'. chunk_loop self es as_completed place_type cols st chunks = (None, st')
       \<and> (first_write st' \<longrightarrow> output_file st' = old)
       \<and> (\<not> first_write st' \<longrightarrow> output_file st' \<noteq> [])
       \<and> headers_ok (written_segments st')
       \<and> list_all (\<lambda>seg. save_interval self \<le> length (snd seg)) (written_segments st')
       \<and> mset (concat (map snd (written_segments st'))) + mset (all_results st')
           = mset (concat (map snd (written_segments st))) + mset (all_results st)
             + mset (concat (map (matches_of place_type answer)
                        (concat (map (chunk_locations place_type cols) chunks))))
       \<and> processed_count st'
           = processed_count st + length (concat (map (chunk_locations place_type cols) chunks))"
proof (induction chunks arbitrary: st)
  case Nil
  then show ?case by simp
next
  case (Cons user_chunk chunks)
  define locs where "locs = chunk_locations place_type cols user_chunk"
  show ?case
  proof (cases "locs = []")
    case True
    have "chunk_loop self es as_completed place_type cols st (user_chunk # chunks)
        = chunk_loop self es as_completed place_type cols st chunks"
      using True by (simp add: locs_def)
    moreover obtain st' where
      "chunk_loop self es as_completed place_type cols st chunks = (None, st')
       \<and> (first_write st' \<longrightarrow> output_file st' = old)
       \<and> (\<not> first_write st' \<longrightarrow> output_file st' \<noteq> [])
       \<and> headers_ok (written_segments st')
       \<and> list_all (\<lambda>seg. save_interval self \<le> length (snd seg)) (written_segments st')
       \<and> mset (concat (map snd (written_segments st'))) + mset (all_results st')
           = mset (concat (map snd (written_segments st))) + mset (all_results st)
             + mset (concat (map (matches_of place_type answer)
                        (concat (map (chunk_locations place_type cols) chunks))))
       \<and> processed_count st'
           = processed_count st + length (concat (map (chunk_locations place_type cols) chunks))"
      using Cons.IH [OF Cons.prems] by blast
    ultimately show ?thesis using True by (auto simp: locs_def [symmetric])
  next
    case False
    obtain rs where rs: "batch_find_nearest_places_parallel self es as_completed place_type locs
          = Inr rs"
      and mrs: "mset rs = mset (concat (map (matches_of place_type answer) locs))"
      using batch_find_rows [OF assms(1) assms(3) assms(4) assms(5)] by blast
    define acc where "acc = all_results st @ rs"
    define st1 where "st1 = st\<lparr> all_results := acc,
        processed_count := processed_count st + length locs,
        matched_count := matched_count st + length rs \<rparr>"
    define st2 where "st2 =
       (if length acc \<ge> save_interval self
        then st1\<lparr> output_file :=
                    (if first_write st1
                     then save_results (all_results st1) ''w'' True (output_file st1)
                     else save_results (all_results st1) ''a'' False (output_file st1)),
                  first_write := False, all_results := [] \<rparr>
        else st1)"
    have step: "chunk_loop self es as_completed place_type cols st (user_chunk # chunks)
        = chunk_loop self es as_completed place_type cols st2 chunks"
      using False rs by (simp add: locs_def [symmetric] Let_def st2_def st1_def acc_def)
    have i1: "first_write st2 \<longrightarrow> output_file st2 = old"
      using Cons.prems(1) by (simp add: st2_def st1_def)
    have i2: "\<not> first_write st2 \<longrightarrow> output_file st2 \<noteq> []"
      using Cons.prems(2) assms(2)
      by (auto simp: st2_def st1_def save_results_def)
    have keep: "written_segments st2 = written_segments st \<and> all_results st2 = acc"
      if "\<not> length acc \<ge> save_interval self"
      using that by (simp add: st2_def st1_def written_segments_def)
    have i3: "headers_ok (written_segments st2)"
    proof (cases "length acc \<ge> save_interval self")
      case True
      then have ne: "acc \<noteq> []" using assms(2) by auto
      show ?thesis
      proof (cases "first_write st")
        case True
        then show ?thesis using \<open>length acc \<ge> save_interval self\<close> ne
          by (simp add: st2_def st1_def written_segments_def save_results_nonempty headers_ok_def)
      next
        case False
        then show ?thesis using \<open>length acc \<ge> save_interval self\<close> ne Cons.prems(2,3)
          by (simp add: st2_def st1_def written_segments_def save_results_nonempty
              headers_ok_append)
      qed
    next
      case False
      then show ?thesis using Cons.prems(3) keep by simp
    qed
    have i4: "list_all (\<lambda>seg. save_interval self \<le> length (snd seg)) (written_segments st2)"
    proof (cases "length acc \<ge> save_interval self")
      case True
      then have ne: "acc \<noteq> []" using assms(2) by auto
      show ?thesis using True ne Cons.prems(4)
        by (cases "first_write st")
           (simp_all add: st2_def st1_def written_segments_def save_results_nonempty)
    next
      case False
      then show ?thesis using Cons.prems(4) keep by simp
    qed
    have i5: "mset (concat (map snd (written_segments st2))) + mset (all_results st2)
        = mset (concat (map snd (written_segments st))) + mset (all_results st) + mset rs"
    proof (cases "length acc \<ge> save_interval self")
      case True
      then have ne: "acc \<noteq> []" using assms(2) by auto
      show ?thesis using True ne
        by (cases "first_write st")
           (simp_all add: st2_def st1_def written_segments_def save_results_nonempty acc_def)
    next
      case False
      then show ?thesis using keep by (simp add: acc_def)
    qed
    have i6: "processed_count st2 = processed_count st + length locs"
      by (simp add: st2_def st1_def)
    obtain st' where st':
      "chunk_loop self es as_completed place_type cols st2 chunks = (None, st')
       \<and> (first_write st' \<longrightarrow> output_file st' = old)
       \<and> (\<not> first_write st' \<longrightarrow> output_file st' \<noteq> [])
       \<and> headers_ok (written_segments st')
       \<and> list_all (\<lambda>seg. save_interval self \<le> length (snd seg)) (written_segments st')
       \<and> mset (concat (map snd (written_segments st'))) + mset (all_results st')
           = mset (concat (map snd (written_segments st2))) + mset (all_results st2)
             + mset (concat (map (matches_of place_type answer)
                        (concat (map (chunk_locations place_type cols) chunks))))
       \<and> processed_count st'
           = processed_count st2 + length (concat (map (chunk_locations place_type cols) chunks))"
      using Cons.IH [OF i1 i2 i3 i4] by blast
    show ?thesis
      using st' step i5 i6 mrs by (simp add: locs_def [symmetric] add.assoc)
  qed
qed

lemma sample_unchunked:
  "unchunked_pass ''high_school'' sample_answer sample_csv
     = [sample_row 10 ''a'', sample_row 20 ''b'', sample_row 50 ''e'']"
  by (simp add: unchunked_pass_def sample_csv_def sample_rows_def chunk_locations_def
      preprocess_chunk_def has_coordinates_def location_of_def matches_of_def make_query_def
      sample_answer_def expected_rows_def make_result_def sample_hit_def code_columns_def
      sample_row_def)

lemma sample_backend_search:
  "sync_msearch small_settings sample_backend body = Some (Object (Some (map sample_answer body)))"
  by (rule sync_msearch_first_success [where k = 1])
     (simp_all add: small_settings_def sample_backend_def attempt_fails_def)

lemma small_settings_fields:
  "batch_size small_settings = 1" "chunk_size small_settings = 2"
  "max_retries small_settings = 3" "save_interval small_settings = 1"
  by (simp_all add: small_settings_def)

lemma sample_run:
  "match_locations small_settings sample_backend rev ''high_school'' (Some sample_csv) []
     = (True, [(True, [sample_row 20 ''b'', sample_row 10 ''a'']), (False, [sample_row 50 ''e''])])"
  by (simp add: match_locations_def sample_csv_def sample_rows_def small_settings_fields
      read_csv_chunks.simps chunk_locations_def preprocess_chunk_def has_coordinates_def
      location_of_def batch_find_nearest_places_parallel_def make_batches.simps
      process_batch_def sample_backend_search
      make_query_def sample_answer_def sample_hit_def make_result_def code_columns_def
      save_results_def sample_row_def Let_def)

text \<open>
  C1. Let the backend answer every query on its own (each request succeeding within the
  retries, with well-formed sub-responses), let the pool complete the batches of a chunk in
  any order, and let batch size, chunk size and checkpoint interval be positive. Then the
  chunked, checkpoint-flushing run writes segments \<open>segs\<close> (the file is left as it was when
  there is nothing to write) whose rows, taken together, are the rows of the single
  unchunked pass over the same filtered rows: the same rows with the same field values, each
  as often, hence the same row count. Only the first segment carries the header, no segment
  is empty, and every segment but the last holds at least the checkpoint interval of rows.
  The returned flag is true when some row was left after filtering.
\<close>

theorem chunked_matching_equals_unchunked_pass:
  assumes "0 < batch_size self" and "0 < chunk_size self" and "0 < save_interval self"
    and "answers_each_query self es answer"
    and "\<forall>q. well_formed (answer q)" and "\<forall>bs. mset (as_completed bs) = mset bs"
  shows "\<exists>segs.
      snd (match_locations self es as_completed place_type (Some csv) old)
        = (if segs = [] then old else segs)
    \<and> mset (concat (map snd segs)) = mset (unchunked_pass place_type answer csv)
    \<and> length (concat (map snd segs)) = length (unchunked_pass place_type answer csv)
    \<and> headers_ok segs
    \<and> list_all (\<lambda>seg. snd seg \<noteq> []) segs
    \<and> list_all (\<lambda>seg. save_interval self \<le> length (snd seg)) (butlast segs)
    \<and> fst (match_locations self es as_completed place_type (Some csv) old)
        = (chunk_locations place_type (columns csv) (csv_rows csv) \<noteq> [])"
proof -
  define st0 :: "'a match_state" where
    "st0 = \<lparr> all_results = [], processed_count = 0, matched_count = 0,
             first_write = True, output_file = old \<rparr>"
  define chunks where "chunks = read_csv_chunks (chunk_size self) (csv_rows csv)"
  have locs: "concat (map (chunk_locations place_type (columns csv)) chunks)
      = chunk_locations place_type (columns csv) (csv_rows csv)"
    using assms(2) by (simp add: chunks_def chunk_locations_concat read_csv_chunks_concat)
  have "\<exists>st'. chunk_loop self es as_completed place_type (columns csv) st0 chunks = (None, st')
       \<and> (first_write st' \<longrightarrow> output_file st' = old)
       \<and> (\<not> first_write st' \<longrightarrow> output_file st' \<noteq> [])
       \<and> headers_ok (written_segments st')
       \<and> list_all (\<lambda>seg. save_interval self \<le> length (snd seg)) (written_segments st')
       \<and> mset (concat (map snd (written_segments st'))) + mset (all_results st')
           = mset (concat (map snd (written_segments st0))) + mset (all_results st0)
             + mset (concat (map (matches_of place_type answer)
                  (concat (map (chunk_locations place_type (columns csv)) chunks))))
       \<and> processed_count st'
           = processed_count st0
             + length (concat (map (chunk_locations place_type (columns csv)) chunks))"
    by (rule chunk_loop_invariant [OF assms(1) assms(3) assms(4) assms(5) assms(6)])
       (simp_all add: st0_def written_segments_def headers_ok_def)
  then obtain st' where run: "chunk_loop self es as_completed place_type (columns csv) st0 chunks
        = (None, st')"
    and fw: "first_write st' \<longrightarrow> output_file st' = old"
    and nfw: "\<not> first_write st' \<longrightarrow> output_file st' \<noteq> []"
    and hd: "headers_ok (written_segments st')"
    and big: "list_all (\<lambda>seg. save_interval self \<le> length (snd seg)) (written_segments st')"
    and rows: "mset (concat (map snd (written_segments st'))) + mset (all_results st')
           = mset (unchunked_pass place_type answer csv)"
    and cnt: "processed_count st'
           = length (chunk_locations place_type (columns csv) (csv_rows csv))"
    by (auto simp: locs st0_def written_segments_def unchunked_pass_def)
  define last_seg where
    "last_seg = (if all_results st' = [] then [] else [(first_write st', all_results st')])"
  define segs where "segs = written_segments st' @ last_seg"
  have res: "match_locations self es as_completed place_type (Some csv) old
      = (processed_count st' \<noteq> 0,
         if first_write st' then save_results (all_results st') ''w'' True (output_file st')
         else save_results (all_results st') ''a'' False (output_file st'))"
    using assms(2) run by (simp add: match_locations_def st0_def chunks_def Let_def)
  have c1: "snd (match_locations self es as_completed place_type (Some csv) old)
        = (if segs = [] then old else segs)"
    using fw nfw
    by (cases "first_write st'"; cases "all_results st' = []")
       (simp_all add: res segs_def last_seg_def written_segments_def save_results_def)
  have c2: "mset (concat (map snd segs)) = mset (unchunked_pass place_type answer csv)"
    using rows by (auto simp: segs_def last_seg_def)
  have c3: "length (concat (map snd segs)) = length (unchunked_pass place_type answer csv)"
    using c2 by (rule mset_eq_length)
  have c4: "headers_ok segs"
  proof (cases "all_results st' = []")
    case True
    then show ?thesis using hd by (simp add: segs_def last_seg_def)
  next
    case False
    show ?thesis
    proof (cases "first_write st'")
      case True
      then show ?thesis using False
        by (simp add: segs_def last_seg_def written_segments_def headers_ok_def)
    next
      case fw_False: False
      then have "written_segments st' \<noteq> []" using nfw by (simp add: written_segments_def)
      then have "headers_ok (written_segments st' @ [(False, all_results st')])"
        using hd by (rule headers_ok_append)
      then show ?thesis using False fw_False by (simp add: segs_def last_seg_def)
    qed
  qed
  have pos: "list_all (\<lambda>seg. snd seg \<noteq> []) (written_segments st')"
    using big assms(3) by (auto simp: list_all_iff)
  have c5: "list_all (\<lambda>seg. snd seg \<noteq> []) segs"
    using pos by (simp add: segs_def last_seg_def)
  have c6: "list_all (\<lambda>seg. save_interval self \<le> length (snd seg)) (butlast segs)"
  proof (cases "all_results st' = []")
    case True
    then have "segs = written_segments st'" by (simp add: segs_def last_seg_def)
    then show ?thesis using big by (auto simp: list_all_iff dest: in_set_butlastD)
  next
    case False
    then have "butlast segs = written_segments st'" by (simp add: segs_def last_seg_def)
    then show ?thesis using big by simp
  qed
  have c7: "fst (match_locations self es as_completed place_type (Some csv) old)
        = (chunk_locations place_type (columns csv) (csv_rows csv) \<noteq> [])"
    by (simp add: res cnt)
  show ?thesis using c1 c2 c3 c4 c5 c6 c7 by blast
qed

theorem chunked_matching_equals_unchunked_pass_witness:
  "0 < batch_size small_settings \<and> 0 < chunk_size small_settings
   \<and> 0 < save_interval small_settings
   \<and> answers_each_query small_settings sample_backend sample_answer
   \<and> (\<forall>q. well_formed (sample_answer q))
   \<and> (\<forall>bs :: (nat \<times> int location list \<times> string) list. mset (rev bs) = mset bs)
   \<and> match_locations small_settings sample_backend rev ''high_school'' (Some sample_csv) []
       = (True, [(True, [sample_row 20 ''b'', sample_row 10 ''a'']),
                 (False, [sample_row 50 ''e''])])
   \<and> unchunked_pass ''high_school'' sample_answer sample_csv
       = [sample_row 10 ''a'', sample_row 20 ''b'', sample_row 50 ''e'']
   \<and> (\<exists>segs.
        snd (match_locations small_settings sample_backend rev ''high_school''
               (Some sample_csv) [])
          = (if segs = [] then [] else segs)
        \<and> mset (concat (map snd segs))
          = mset (unchunked_pass ''high_school'' sample_answer sample_csv)
        \<and> length (concat (map snd segs)) = 3
        \<and> headers_ok segs)"
proof -
  have h1: "0 < batch_size small_settings" and h2: "0 < chunk_size small_settings"
    and h3: "0 < save_interval small_settings"
    by (simp_all add: small_settings_fields)
  have h4: "answers_each_query small_settings sample_backend sample_answer"
    unfolding answers_each_query_def
  proof
    fix body
    show "\<exists>k < max_retries small_settings.
        (\<forall>j < k. attempt_fails (sample_backend body j))
        \<and> sample_backend body k = Response 200 (Object (Some (map sample_answer body)))"
      by (rule exI [of _ 1])
         (simp add: small_settings_fields sample_backend_def attempt_fails_def)
  qed
  have h5: "\<forall>q. well_formed (sample_answer q)"
    by (simp add: well_formed_def sample_answer_def sample_hit_def)
  have h6: "\<forall>bs :: (nat \<times> int location list \<times> string) list. mset (rev bs) = mset bs"
    by simp
  have "\<exists>segs.
        snd (match_locations small_settings sample_backend rev ''high_school''
               (Some sample_csv) [])
          = (if segs = [] then [] else segs)
        \<and> mset (concat (map snd segs))
          = mset (unchunked_pass ''high_school'' sample_answer sample_csv)
        \<and> length (concat (map snd segs)) = 3
        \<and> headers_ok segs"
    using chunked_matching_equals_unchunked_pass [OF h1 h2 h3 h4 h5 h6,
        of "''high_school''" sample_csv "[]"]
    by (auto simp: sample_unchunked)
  then show ?thesis using h1 h2 h3 h4 h5 h6 sample_run sample_unchunked by blast
qed

subsection \<open>Paginated collection\<close>

lemma loop_body_page:
  assumes "api page = Response status (Object d)" and "\<not> (400 \<le> status \<and> status < 600)"
    and "data_items d = Some items"
  shows "loop_body api page all_data =
     (if items = [] \<or> (case totalCount d of None \<Rightarrow> 0 | Some t \<Rightarrow> t) \<le> int (length (all_data @ items))
         \<or> length items < per_page \<or> 100 \<le> page
      then Break (all_data @ items)
      else Continue (page + 1) (all_data @ items))"
  using assms by (auto simp: loop_body_def Let_def)

lemma loop_body_no_data:
  assumes "api page = Response status (Object d)" and "data_items d = None"
  shows "loop_body api page all_data = Raise PlainException"
  using assms by (simp add: loop_body_def)

lemma loop_body_Continue:
  "loop_body api page all_data = Continue p acc \<Longrightarrow> p = page + 1 \<and> page < 100"
  by (auto simp: loop_body_def Let_def
           split: http.splits json_body.splits option.splits if_splits)

lemma fetch_loop_first_100:
  "page \<le> 100 \<Longrightarrow> (\<forall>p. 1 \<le> p \<and> p \<le> 100 \<longrightarrow> api p = api' p) \<Longrightarrow> 1 \<le> page \<Longrightarrow>
   fetch_loop api page all_data = fetch_loop api' page all_data"
proof (induction api page all_data rule: fetch_loop.induct)
  case (1 api page all_data)
  have same: "loop_body api page all_data = loop_body api' page all_data"
    using "1.prems" by (simp add: loop_body_def)
  show ?case
  proof (cases "loop_body api page all_data")
    case (Break r)
    then show ?thesis using same
      by (simp add: fetch_loop.simps [of api] fetch_loop.simps [of api'])
  next
    case (Raise e)
    then show ?thesis using same
      by (simp add: fetch_loop.simps [of api] fetch_loop.simps [of api'])
  next
    case (Continue p acc)
    then have p: "p = page + 1 \<and> page < 100" by (rule loop_body_Continue)
    then have ih: "fetch_loop api p acc = fetch_loop api' p acc"
      using "1.IH" [OF Continue] "1.prems" by simp
    have a: "fetch_loop api page all_data = fetch_loop api p acc"
      using Continue by (simp add: fetch_loop.simps [of api page])
    have "loop_body api' page all_data = Continue p acc" using Continue same by simp
    then have b: "fetch_loop api' page all_data = fetch_loop api' p acc"
      by (simp add: fetch_loop.simps [of api' page])
    show ?thesis using a b ih by simp
  qed
qed

lemma sample_fetch:
  "fetch_all_pages sample_listing
     = Inr (replicate 1000 1 @ replicate 1000 2 @ replicate 500 3)"
  by (simp add: fetch_all_pages_def fetch_loop.simps loop_body_def sample_listing_def
      per_page_def Let_def)

text \<open>
  C7. \<^verbatim>\<open>fetch_all_pages\<close> is a total function: the loop is defined by recursion on the
  page number with the measure \<open>101 - page\<close>, so it returns for every server. One pass
  through the loop on a page that has \<^verbatim>\<open>'data'\<close> leaves the loop exactly when the page
  has no items, the accumulated count has reached \<^verbatim>\<open>totalCount\<close>, the page has fewer items
  than requested, or page 100 has just been fetched; otherwise it goes on with the next
  page. A page object without \<^verbatim>\<open>'data'\<close> raises at once, with no further request. The
  result depends on the replies to pages 1 to 100 only.
\<close>

theorem fetch_all_pages_stops:
  "(\<forall>status d items.
      api page = Response status (Object d) \<and> \<not> (400 \<le> status \<and> status < 600)
      \<and> data_items d = Some items \<longrightarrow>
      loop_body api page all_data =
        (if items = []
            \<or> (case totalCount d of None \<Rightarrow> 0 | Some t \<Rightarrow> t) \<le> int (length (all_data @ items))
            \<or> length items < per_page \<or> 100 \<le> page
         then Break (all_data @ items)
         else Continue (page + 1) (all_data @ items)))
   \<and> (\<forall>status d.
      api page = Response status (Object d) \<and> data_items d = None \<longrightarrow>
      loop_body api page all_data = Raise PlainException
      \<and> fetch_loop api page all_data = Inl PlainException)
   \<and> (\<forall>result. loop_body api page all_data = Break result \<longrightarrow>
        fetch_loop api page all_data = Inr result)
   \<and> (\<forall>next_page collected. loop_body api page all_data = Continue next_page collected \<longrightarrow>
        next_page = page + 1 \<and> page < 100
        \<and> fetch_loop api page all_data = fetch_loop api next_page collected)
   \<and> (\<forall>api'. (\<forall>p. 1 \<le> p \<and> p \<le> 100 \<longrightarrow> api p = api' p) \<longrightarrow>
        fetch_all_pages api = fetch_all_pages api')"
proof -
  have a: "\<forall>status d items.
      api page = Response status (Object d) \<and> \<not> (400 \<le> status \<and> status < 600)
      \<and> data_items d = Some items \<longrightarrow>
      loop_body api page all_data =
        (if items = []
            \<or> (case totalCount d of None \<Rightarrow> 0 | Some t \<Rightarrow> t) \<le> int (length (all_data @ items))
            \<or> length items < per_page \<or> 100 \<le> page
         then Break (all_data @ items)
         else Continue (page + 1) (all_data @ items))"
    using loop_body_page [of api page _ _ _ all_data] by blast
  have b: "\<forall>status d.
      api page = Response status (Object d) \<and> data_items d = None \<longrightarrow>
      loop_body api page all_data = Raise PlainException
      \<and> fetch_loop api page all_data = Inl PlainException"
    using loop_body_no_data [of api page _ _ all_data]
    by (auto simp: fetch_loop.simps [of api page all_data])
  have c: "\<forall>result. loop_body api page all_data = Break result \<longrightarrow>
        fetch_loop api page all_data = Inr result"
    by (simp add: fetch_loop.simps [of api page all_data])
  have d: "\<forall>next_page collected. loop_body api page all_data = Continue next_page collected \<longrightarrow>
        next_page = page + 1 \<and> page < 100
        \<and> fetch_loop api page all_data = fetch_loop api next_page collected"
    using loop_body_Continue [of api page all_data]
    by (auto simp: fetch_loop.simps [of api page all_data])
  have e: "\<forall>api'. (\<forall>p. 1 \<le> p \<and> p \<le> 100 \<longrightarrow> api p = api' p) \<longrightarrow>
        fetch_all_pages api = fetch_all_pages api'"
    using fetch_loop_first_100 [of 1 api _ "[]"] by (simp add: fetch_all_pages_def)
  show ?thesis by (intro conjI a b c d e)
qed

theorem fetch_all_pages_stops_witness:
  "loop_body sample_listing 1 [] = Continue 2 (replicate 1000 1)
   \<and> loop_body sample_listing 3 (replicate 2000 0) = Break (replicate 2000 0 @ replicate 500 3)
   \<and> fetch_loop (\<lambda>p. Response 200 (Object \<lparr> data_items = None, totalCount = None \<rparr>)) 1
        ([] :: nat list) = Inl PlainException
   \<and> fetch_all_pages (\<lambda>p. if p \<le> 100 then sample_listing p else RequestFailed)
       = fetch_all_pages sample_listing
   \<and> fetch_all_pages sample_listing
       = Inr (replicate 1000 1 @ replicate 1000 2 @ replicate 500 3)"
proof -
  have s1: "sample_listing 1 = Response 200
      (Object \<lparr> data_items = Some (replicate 1000 1), totalCount = Some 2500 \<rparr>)"
    by (simp add: sample_listing_def)
  have s3: "sample_listing 3 = Response 200
      (Object \<lparr> data_items = Some (replicate 500 3), totalCount = Some 2500 \<rparr>)"
    by (simp add: sample_listing_def)
  have t1: "loop_body sample_listing 1 [] = Continue 2 (replicate 1000 1)"
    using fetch_all_pages_stops [of sample_listing 1 "[]", THEN conjunct1, rule_format,
        of 200 "\<lparr> data_items = Some (replicate 1000 1), totalCount = Some 2500 \<rparr>"
           "replicate 1000 1"] s1
    by (simp add: per_page_def)
  have t3: "loop_body sample_listing 3 (replicate 2000 0)
      = Break (replicate 2000 0 @ replicate 500 3)"
    using fetch_all_pages_stops [of sample_listing 3 "replicate 2000 0", THEN conjunct1,
        rule_format,
        of 200 "\<lparr> data_items = Some (replicate 500 3), totalCount = Some 2500 \<rparr>"
           "replicate 500 3"] s3
    by (simp add: per_page_def)
  have t4: "fetch_loop (\<lambda>p. Response 200 (Object \<lparr> data_items = None, totalCount = None \<rparr>)) 1
        ([] :: nat list) = Inl PlainException"
    using fetch_all_pages_stops
      [of "\<lambda>p. Response 200 (Object \<lparr> data_items = None, totalCount = None \<rparr>)" 1
          "[] :: nat list", THEN conjunct2, THEN conjunct1, rule_format,
       of 200 "\<lparr> data_items = None, totalCount = None \<rparr>"]
    by simp
  have t5: "fetch_all_pages (\<lambda>p. if p \<le> 100 then sample_listing p else RequestFailed)
       = fetch_all_pages sample_listing"
    using fetch_all_pages_stops
      [of "\<lambda>p. if p \<le> 100 then sample_listing p else RequestFailed" 1 "[]",
       THEN conjunct2, THEN conjunct2, THEN conjunct2, THEN conjunct2, rule_format,
       of sample_listing]
    by simp
  show ?thesis using t1 t3 t4 t5 sample_fetch by simp
qed

end
